theory Spec2Isabelle
  imports Complex_Main "HOL-Library.AList" "HOL-Library.Char_ord" "HOL-Library.List_Lexorder"
begin

section \<open>Python values used by testing/vcttesting/docker.py\<close>

text \<open>
  Exceptions are values. The constructors follow the statements that raise them:
  \<open>ValueError\<close> is an explicit \<^verbatim>\<open>raise ValueError(msg)\<close>, \<open>UnpackError\<close> is the
  ValueError Python raises when \<^verbatim>\<open>a, b = xs\<close> is given a list that does not have two
  elements, \<open>Exception\<close> is \<^verbatim>\<open>raise Exception(msg)\<close>, and \<open>Propagated\<close> is an
  exception that comes out of a callee that is not modelled here (the Docker daemon,
  the network, the file system, another method), identified by its text.
\<close>

datatype error =
    ValueError string
  | UnpackError
  | Exception string
  | KeyError string
  | OSError
  | Propagated string

text \<open>Truth value of an optional string argument: None and the empty string are false.\<close>

fun truthy :: "string option \<Rightarrow> bool" where
  "truthy None = False"
| "truthy (Some s) = (s \<noteq> [])"

definition startswith :: "string \<Rightarrow> string \<Rightarrow> bool" where
  "startswith s p = (take (length p) s = p)"

definition endswith :: "string \<Rightarrow> string \<Rightarrow> bool" where
  "endswith s p = (length p \<le> length s \<and> drop (length s - length p) s = p)"

text \<open>\<^verbatim>\<open>s.split(sep)\<close> for a one-character separator: every occurrence splits.\<close>

fun py_split :: "char \<Rightarrow> string \<Rightarrow> string list" where
  "py_split sep [] = [[]]"
| "py_split sep (c # cs) =
     (if c = sep then [] # py_split sep cs
      else (case py_split sep cs of
              [] \<Rightarrow> [[c]]
            | p # ps \<Rightarrow> (c # p) # ps))"

text \<open>\<^verbatim>\<open>s.split(sep, 1)\<close>: only the first occurrence splits.\<close>

fun py_split1 :: "char \<Rightarrow> string \<Rightarrow> string list" where
  "py_split1 sep [] = [[]]"
| "py_split1 sep (c # cs) =
     (if c = sep then [[], cs]
      else (case py_split1 sep cs of
              [] \<Rightarrow> [[c]]
            | p # ps \<Rightarrow> (c # p) # ps))"

text \<open>\<^verbatim>\<open>a, b = xs\<close>: fails unless the list has exactly two elements.\<close>

fun unpack2 :: "string list \<Rightarrow> error + (string \<times> string)" where
  "unpack2 [a, b] = Inr (a, b)"
| "unpack2 _ = Inl UnpackError"

text \<open>\<^verbatim>\<open>os.path.join(a, b)\<close> on POSIX.\<close>

definition path_join :: "string \<Rightarrow> string \<Rightarrow> string" where
  "path_join a b =
     (if startswith b ''/'' then b
      else if a = [] \<or> endswith a ''/'' then a @ b
      else a @ ''/'' @ b)"

text \<open>\<^verbatim>\<open>int(x)\<close> on a number: truncation towards zero.\<close>

definition py_int :: "rat \<Rightarrow> int" where
  "py_int x = (if 0 \<le> x then \<lfloor>x\<rfloor> else \<lceil>x\<rceil>)"

section \<open>Images as the daemon lists them\<close>

text \<open>
  One entry of \<^verbatim>\<open>api_client.images()\<close>: the keys the code reads. \<open>RepoTags\<close> may be
  null; the code reads it as \<^verbatim>\<open>image['RepoTags'] or []\<close>.
\<close>

record image =
  ImageId :: string
  Created :: int
  RepoTags :: "string list option"

definition repotags_of :: "image \<Rightarrow> string list" where
  "repotags_of i = (case RepoTags i of None \<Rightarrow> [] | Some ts \<Rightarrow> ts)"

text \<open>
  \<^verbatim>\<open>_get_sorted_images\<close>: \<^verbatim>\<open>sorted(images, key=Created, reverse=True)\<close>. Python's sort
  is stable also when reversed, as is \<open>sort_key\<close> on the negated key.
\<close>

definition get_sorted_images :: "image list \<Rightarrow> image list" where
  "get_sorted_images imgs = sort_key (\<lambda>i. - Created i) imgs"

section \<open>import_base_image (lines 323-382)\<close>

text \<open>
  What the method reaches outside the program: hashlib's SHA-256 (as the hex digest of
  a byte string), the HTTP download (the chunks of \<^verbatim>\<open>iter_content\<close>, or a failure), the
  lzma decompressor, and the daemon's import call, whose answer is read as
  \<^verbatim>\<open>json.loads(res.strip())['status']\<close>.
\<close>

record import_env =
  sha256_hexdigest :: "string \<Rightarrow> string"
  http_get :: "string \<Rightarrow> string list option"
  lzma_decompress :: "string \<Rightarrow> string option"
  import_image_from_data :: "string \<Rightarrow> string \<Rightarrow> string \<Rightarrow> string option"

datatype io_event =
    Download string
  | ImportImage string string string

text \<open>The inner loop over one image's tags: a hit, no hit, or the unpacking error.\<close>

fun scan_repotags :: "string \<Rightarrow> string \<Rightarrow> string list \<Rightarrow> error + bool" where
  "scan_repotags repository tag [] = Inr False"
| "scan_repotags repository tag (repotag # rest) =
     (case unpack2 (py_split CHR '':'' repotag) of
        Inl e \<Rightarrow> Inl e
      | Inr (r, t) \<Rightarrow>
          if r = repository \<and> t = tag then Inr True
          else scan_repotags repository tag rest)"

fun scan_images :: "string \<Rightarrow> string \<Rightarrow> image list \<Rightarrow> error + string option" where
  "scan_images repository tag [] = Inr None"
| "scan_images repository tag (i # rest) =
     (case scan_repotags repository tag (repotags_of i) of
        Inl e \<Rightarrow> Inl e
      | Inr True \<Rightarrow> Inr (Some (ImageId i))
      | Inr False \<Rightarrow> scan_images repository tag rest)"

definition cache_tag :: "import_env \<Rightarrow> string \<Rightarrow> string \<Rightarrow> string \<Rightarrow> string" where
  "cache_tag env tagprefix url digest =
     tagprefix @ ''-'' @ sha256_hexdigest env (url @ digest)"

definition import_base_image ::
  "import_env \<Rightarrow> image list \<Rightarrow> string \<Rightarrow> string \<Rightarrow> string \<Rightarrow> string
     \<Rightarrow> (error + string) \<times> io_event list" where
  "import_base_image env imgs repository tagprefix url digest =
     (let tag = cache_tag env tagprefix url digest in
      case scan_images repository tag (get_sorted_images imgs) of
        Inl e \<Rightarrow> (Inl e, [])
      | Inr (Some iid) \<Rightarrow> (Inr iid, [])
      | Inr None \<Rightarrow>
          (case http_get env url of
             None \<Rightarrow> (Inl (Propagated ''requests.get''), [Download url])
           | Some chunks \<Rightarrow>
               if sha256_hexdigest env (concat chunks) \<noteq> digest
               then (Inl (Exception ''downloaded Docker image does not match digest''),
                     [Download url])
               else
                 (case (if endswith url ''.xz'' then lzma_decompress env (concat chunks)
                        else Some (concat chunks)) of
                    None \<Rightarrow> (Inl (Propagated ''lzma.decompress''), [Download url])
                  | Some data \<Rightarrow>
                      (case import_image_from_data env data repository tag of
                         None \<Rightarrow> (Inl (Propagated ''import_image_from_data''),
                                   [Download url, ImportImage data repository tag])
                       | Some status \<Rightarrow>
                           (Inr status,
                            [Download url, ImportImage data repository tag])))))"

section \<open>The state document of the Docker object\<close>

text \<open>
  \<^verbatim>\<open>self.state\<close> is a dictionary read from and written to a JSON file. Its values are
  null, numbers, strings, and objects from strings to strings (\<^verbatim>\<open>images\<close>,
  \<^verbatim>\<open>containers\<close>). A dictionary is an association list with distinct keys;
  \<^verbatim>\<open>d[k] = v\<close> is \<open>AList.update\<close>.
\<close>

datatype jvalue =
    JNull
  | JNum rat
  | JStr string
  | JObj "(string \<times> string) list"

text \<open>
  The state file on disk, as far as a reader can tell: absent, holding less than a whole
  document (empty after the truncation of \<^verbatim>\<open>open(path, 'wb')\<close>, or a prefix of the
  text), or holding the whole serialisation of a dictionary.
\<close>

datatype file_content =
    NoFile
  | Incomplete
  | Document "(string \<times> jvalue) list"

record docker =
  state :: "(string \<times> jvalue) list"
  state_file :: file_content

definition state_get :: "(string \<times> jvalue) list \<Rightarrow> string \<Rightarrow> error + jvalue" where
  "state_get st k = (case map_of st k of None \<Rightarrow> Inl (KeyError k) | Some v \<Rightarrow> Inr v)"

section \<open>save_state (lines 909-911)\<close>

text \<open>
  \<^verbatim>\<open>open(self._state_path, 'wb')\<close> truncates the file in place; \<^verbatim>\<open>json.dump\<close> then
  writes the whole dictionary, and leaving the \<^verbatim>\<open>with\<close> block closes the file.
  \<open>save_state_writes\<close> lists the contents of the file after each of the two steps.
\<close>

definition save_state_writes :: "docker \<Rightarrow> file_content list" where
  "save_state_writes d = [Incomplete, Document (state d)]"

text \<open>The file when the process stops after \<open>k\<close> steps of \<open>save_state\<close>.\<close>

definition file_after_steps :: "docker \<Rightarrow> nat \<Rightarrow> file_content" where
  "file_after_steps d k = last (state_file d # take k (save_state_writes d))"

definition save_state :: "docker \<Rightarrow> docker" where
  "save_state d = d\<lparr>state_file := file_after_steps d (length (save_state_writes d))\<rparr>"

section \<open>clobber_needed (lines 287-321)\<close>

datatype stat_result =
    Mtime rat
  | ENOENT
  | OtherOSError

text \<open>
  \<^verbatim>\<open>newmtime > oldmtime\<close> for a number on the left. Python 2 orders a number below
  every string and dictionary, and above None.
\<close>

fun num_gt :: "rat \<Rightarrow> jvalue \<Rightarrow> bool" where
  "num_gt x JNull = True"
| "num_gt x (JNum y) = (x > y)"
| "num_gt x (JStr s) = False"
| "num_gt x (JObj kvs) = False"

text \<open>
  \<open>vct_root\<close> is the module constant ROOT, \<open>getmtime\<close> is \<^verbatim>\<open>os.path.getmtime\<close> on the
  file system of the moment, \<open>now\<close> is the value of \<^verbatim>\<open>time.time()\<close> at the call.
\<close>

definition marker_path :: "string \<Rightarrow> string \<Rightarrow> string" where
  "marker_path vct_root name = path_join (path_join vct_root ''testing'') (''clobber.'' @ name)"

text \<open>Line 302.\<close>

definition clobber_key :: "string \<Rightarrow> string" where
  "clobber_key name = ''clobber-'' @ name"

text \<open>Lines 304-307: the stored value; a missing key reads as None.\<close>

definition stored_clobber :: "docker \<Rightarrow> string \<Rightarrow> jvalue" where
  "stored_clobber d name =
     (case map_of (state d) (clobber_key name) of None \<Rightarrow> JNull | Some v \<Rightarrow> v)"

definition clobber_needed ::
  "string \<Rightarrow> (string \<Rightarrow> stat_result) \<Rightarrow> rat \<Rightarrow> docker \<Rightarrow> string \<Rightarrow> (error + bool) \<times> docker" where
  "clobber_needed vct_root getmtime now d name =
     (case getmtime (marker_path vct_root name) of
        ENOENT \<Rightarrow> (Inr False, d)
      | OtherOSError \<Rightarrow> (Inl OSError, d)
      | Mtime newmtime \<Rightarrow>
          if stored_clobber d name = JNull \<or> num_gt newmtime (stored_clobber d name)
          then (Inr True,
                d\<lparr>state := AList.update (clobber_key name) (JNum (of_int (py_int now)))
                              (state d)\<rparr>)
          else (Inr False, d))"

section \<open>run_ansible (lines 668-771)\<close>

record hist =
  HistId :: string
  CreatedBy :: string

text \<open>
  The callees of \<open>run_ansible\<close>: \<^verbatim>\<open>self.ensure_built(name)\<close>, the daemon's
  \<^verbatim>\<open>history(image)\<close> (newest layer first), and the provisioning run of lines 727-771
  (content-sync container, container creation, attach loop, commit), which is given the
  start image, the playbook and the repository and answers the image id and its tag.
  \<open>Inl\<close> is the text of the exception a callee raises.
\<close>

record ansible_env =
  ensure_built_result :: "string \<Rightarrow> string + string"
  history_result :: "string \<Rightarrow> string + hist list"
  provision_result :: "string \<Rightarrow> string \<Rightarrow> string \<Rightarrow> string + (string \<times> string)"

datatype api_op =
    EnsureBuilt string
  | History string
  | Provision string string string

text \<open>Lines 651 and 708: \<^verbatim>\<open>'ansible-%s' % builder\<close>, the image name of a builder.\<close>

definition builder_image :: "string \<Rightarrow> string" where
  "builder_image b = ''ansible-'' @ b"

definition created_by_ansible :: "hist \<Rightarrow> bool" where
  "created_by_ansible base = startswith (CreatedBy base) ''/sync-and-build''"

text \<open>Lines 723-725: the loop over the history has no \<^verbatim>\<open>break\<close>.\<close>

fun rebase_loop :: "string \<Rightarrow> hist list \<Rightarrow> string" where
  "rebase_loop start_image [] = start_image"
| "rebase_loop start_image (base # rest) =
     rebase_loop (if created_by_ansible base then HistId base else start_image) rest"

text \<open>Lines 720-725.\<close>

definition history_rebase :: "string \<Rightarrow> hist list \<Rightarrow> string" where
  "history_rebase start_image history =
     (if length history > 120 then rebase_loop start_image history else start_image)"

definition run_ansible ::
  "ansible_env \<Rightarrow> string \<Rightarrow> string option \<Rightarrow> string option \<Rightarrow> string option
     \<Rightarrow> (error + (string \<times> string \<times> string)) \<times> api_op list" where
  \<open>run_ansible env playbook repository builder start_image =
     (if \<not> truthy builder \<and> \<not> truthy start_image
      then (Inl (ValueError ''At least 1 of "builder" or "start_image" must be defined''), [])
      else if truthy builder \<and> truthy start_image
      then (Inl (ValueError ''Only 1 of "builder" and "start_image" may be defined''), [])
      else
        let repo = (if truthy repository then the repository else playbook);
            built = (if truthy builder
                     then (case ensure_built_result env (builder_image (the builder)) of
                             Inl m \<Rightarrow> (Inl m, [EnsureBuilt (builder_image (the builder))])
                           | Inr img \<Rightarrow> (Inr img, [EnsureBuilt (builder_image (the builder))]))
                     else (Inr (the start_image), []))
        in case built of
             (Inl m, ops) \<Rightarrow> (Inl (Propagated m), ops)
           | (Inr img, ops) \<Rightarrow>
               (case history_result env img of
                  Inl m \<Rightarrow> (Inl (Propagated m), ops @ [History img])
                | Inr history \<Rightarrow>
                    let img' = history_rebase img history;
                        ops' = ops @ [History img, Provision img' playbook repo]
                    in (case provision_result env img' playbook repo of
                          Inl m \<Rightarrow> (Inl (Propagated m), ops')
                        | Inr (iid, tag) \<Rightarrow> (Inr (iid, repo, tag), ops'))))\<close>

section \<open>docker_rollback_on_error (lines 109-144)\<close>

text \<open>
  An exception that leaves the scope is an instance of \<^verbatim>\<open>Exception\<close>, which
  \<^verbatim>\<open>except Exception\<close> catches, or of another subclass of \<^verbatim>\<open>BaseException\<close>
  (KeyboardInterrupt, SystemExit), which it does not.
\<close>

datatype exn =
    Exn string
  | BaseExn string

fun is_Exception :: "exn \<Rightarrow> bool" where
  "is_Exception (Exn m) = True"
| "is_Exception (BaseExn m) = False"

datatype api_call =
    CreateContainerCall
  | CreateNetworkCall
  | RemoveContainer string
  | RemoveNetwork string

text \<open>
  The client object. \<open>klass\<close> is \<^verbatim>\<open>client.__class__\<close>: the scopes whose
  \<^verbatim>\<open>ProxiedDockerClient\<close> classes are stacked on the original class, innermost first
  (each proxy class derives from the class the client had when its scope was entered,
  and calls it through \<^verbatim>\<open>super\<close>). \<open>created_containers n\<close> and
  \<open>created_networks n\<close> are the two sets that the methods of scope \<open>n\<close>'s proxy class
  close over; a set is a list without repetitions, and the order in which a loop visits
  it is a parameter of the context manager below. \<open>calls\<close> is the log of the daemon
  calls made.
\<close>

record client =
  klass :: "nat list"
  created_containers :: "nat \<Rightarrow> string list"
  created_networks :: "nat \<Rightarrow> string list"
  calls :: "api_call list"

definition set_add :: "string \<Rightarrow> string list \<Rightarrow> string list" where
  "set_add x xs = (if x \<in> set xs then xs else xs @ [x])"

definition track :: "nat list \<Rightarrow> string \<Rightarrow> (nat \<Rightarrow> string list) \<Rightarrow> nat \<Rightarrow> string list" where
  "track ks i m = (\<lambda>n. if n \<in> set ks then set_add i (m n) else m n)"

text \<open>
  A creation call on the client; \<open>res\<close> is what the daemon does with it (\<open>Inr\<close> the
  \<^verbatim>\<open>Id\<close> of the answer). Every proxy class in \<open>klass\<close> records the id after its
  \<^verbatim>\<open>super\<close> call returns.
\<close>

definition create_container :: "client \<Rightarrow> exn + string \<Rightarrow> (exn + string) \<times> client" where
  "create_container c res =
     (case res of
        Inl e \<Rightarrow> (Inl e, c\<lparr>calls := calls c @ [CreateContainerCall]\<rparr>)
      | Inr i \<Rightarrow> (Inr i, c\<lparr>calls := calls c @ [CreateContainerCall],
                             created_containers := track (klass c) i (created_containers c)\<rparr>))"

definition create_network :: "client \<Rightarrow> exn + string \<Rightarrow> (exn + string) \<times> client" where
  "create_network c res =
     (case res of
        Inl e \<Rightarrow> (Inl e, c\<lparr>calls := calls c @ [CreateNetworkCall]\<rparr>)
      | Inr i \<Rightarrow> (Inr i, c\<lparr>calls := calls c @ [CreateNetworkCall],
                             created_networks := track (klass c) i (created_networks c)\<rparr>))"

text \<open>
  The body of the \<^verbatim>\<open>with\<close> block: creation calls on the yielded client, each with
  the daemon's answer, and statements that raise. The first exception leaves the scope.
\<close>

datatype action =
    CreateContainer "exn + string"
  | CreateNetwork "exn + string"
  | Raise exn

fun run_body :: "action list \<Rightarrow> client \<Rightarrow> exn option \<times> client" where
  "run_body [] c = (None, c)"
| "run_body (Raise e # rest) c = (Some e, c)"
| "run_body (CreateContainer res # rest) c =
     (case create_container c res of
        (Inl e, c') \<Rightarrow> (Some e, c')
      | (Inr i, c') \<Rightarrow> run_body rest c')"
| "run_body (CreateNetwork res # rest) c =
     (case create_network c res of
        (Inl e, c') \<Rightarrow> (Some e, c')
      | (Inr i, c') \<Rightarrow> run_body rest c')"

text \<open>
  Lines 138-141: the two removal loops. \<open>rm\<close> is the daemon's answer to a removal
  (\<open>Some\<close> the exception it raises). Nothing catches that exception.
\<close>

fun remove_containers :: "(string \<Rightarrow> exn option) \<Rightarrow> string list \<Rightarrow> client \<Rightarrow> exn option \<times> client" where
  "remove_containers rm [] c = (None, c)"
| "remove_containers rm (cid # rest) c =
     (case rm cid of
        Some e \<Rightarrow> (Some e, c\<lparr>calls := calls c @ [RemoveContainer cid]\<rparr>)
      | None \<Rightarrow> remove_containers rm rest (c\<lparr>calls := calls c @ [RemoveContainer cid]\<rparr>))"

fun remove_networks :: "(string \<Rightarrow> exn option) \<Rightarrow> string list \<Rightarrow> client \<Rightarrow> exn option \<times> client" where
  "remove_networks rm [] c = (None, c)"
| "remove_networks rm (nid # rest) c =
     (case rm nid of
        Some e \<Rightarrow> (Some e, c\<lparr>calls := calls c @ [RemoveNetwork nid]\<rparr>)
      | None \<Rightarrow> remove_networks rm rest (c\<lparr>calls := calls c @ [RemoveNetwork nid]\<rparr>))"

text \<open>The proxy class of a scope is a new class: a number no class in the stack has.\<close>

definition new_scope :: "nat list \<Rightarrow> nat" where
  "new_scope ks = Suc (fold max ks 0)"

text \<open>Lines 119-135: the client as the body receives it.\<close>

definition enter_scope :: "client \<Rightarrow> client" where
  "enter_scope c =
     c\<lparr>klass := new_scope (klass c) # klass c,
       created_containers := (created_containers c)(new_scope (klass c) := []),
       created_networks := (created_networks c)(new_scope (klass c) := [])\<rparr>"

text \<open>
  The context manager around a body. The result is the exception that leaves the
  \<^verbatim>\<open>with\<close> statement, if any, and the client afterwards. \<open>iter\<close> is the order in
  which \<^verbatim>\<open>for x in s\<close> visits the elements of a set, which Python leaves open: it is
  a parameter, and a statement that holds for every \<open>iter\<close> holds for every order.
\<close>

definition docker_rollback_on_error ::
  "(string list \<Rightarrow> string list) \<Rightarrow> (string \<Rightarrow> exn option) \<Rightarrow> (string \<Rightarrow> exn option)
     \<Rightarrow> action list \<Rightarrow> client \<Rightarrow> exn option \<times> client" where
  "docker_rollback_on_error iter rmc rmn body c =
     (let old_class = klass c;
          n = new_scope old_class
      in case run_body body (enter_scope c) of
           (None, c2) \<Rightarrow> (None, c2\<lparr>klass := old_class\<rparr>)
         | (Some e, c2) \<Rightarrow>
             if is_Exception e
             then (case remove_containers rmc (iter (created_containers c2 n)) c2 of
                     (Some e', c3) \<Rightarrow> (Some e', c3\<lparr>klass := old_class\<rparr>)
                   | (None, c3) \<Rightarrow>
                       (case remove_networks rmn (iter (created_networks c3 n)) c3 of
                          (Some e', c4) \<Rightarrow> (Some e', c4\<lparr>klass := old_class\<rparr>)
                        | (None, c4) \<Rightarrow> (Some e, c4\<lparr>klass := old_class\<rparr>)))
             else (Some e, c2\<lparr>klass := old_class\<rparr>))"

section \<open>ensure_images_built (lines 549-666)\<close>

text \<open>Line 573: the entries of \<^verbatim>\<open>existing\<close> whose image the daemon still knows.\<close>

definition known_existing :: "string list \<Rightarrow> (string \<times> string) list \<Rightarrow> (string \<times> string) list" where
  "known_existing docker_images existing = filter (\<lambda>(k, v). v \<in> set docker_images) existing"

text \<open>Line 575. The set \<^verbatim>\<open>missing\<close> is a list without repetitions.\<close>

definition missing_roles ::
  "string list \<Rightarrow> (string \<times> string \<times> string option) list \<Rightarrow> (string \<times> string) list \<Rightarrow> string list" where
  "missing_roles names ansibles images =
     filter (\<lambda>n. n \<notin> fst ` set images) (remdups (names @ map fst ansibles))"

text \<open>Lines 581-588: with \<^verbatim>\<open>use_last\<close>, the newest image of a missing role is taken.\<close>

fun collect_last_tags ::
  "string \<Rightarrow> string list \<Rightarrow> (string \<times> string) list \<times> string list
     \<Rightarrow> error + ((string \<times> string) list \<times> string list)" where
  "collect_last_tags iid [] acc = Inr acc"
| "collect_last_tags iid (repotag # rest) (images, missing) =
     (case unpack2 (py_split1 CHR '':'' repotag) of
        Inl e \<Rightarrow> Inl e
      | Inr (repo, tag) \<Rightarrow>
          if repo \<in> set missing
          then collect_last_tags iid rest (AList.update repo iid images, removeAll repo missing)
          else collect_last_tags iid rest (images, missing))"

fun collect_last ::
  "image list \<Rightarrow> (string \<times> string) list \<times> string list
     \<Rightarrow> error + ((string \<times> string) list \<times> string list)" where
  "collect_last [] acc = Inr acc"
| "collect_last (i # rest) acc =
     (case collect_last_tags (ImageId i) (repotags_of i) acc of
        Inl e \<Rightarrow> Inl e
      | Inr acc' \<Rightarrow> collect_last rest acc')"

text \<open>Lines 594-600: the start image of each missing provisioned role.\<close>

fun start_image_tags ::
  "string list \<Rightarrow> string \<Rightarrow> string list \<Rightarrow> (string \<times> string) list
     \<Rightarrow> error + (string \<times> string) list" where
  "start_image_tags roles iid [] acc = Inr acc"
| "start_image_tags roles iid (repotag # rest) acc =
     (case unpack2 (py_split1 CHR '':'' repotag) of
        Inl e \<Rightarrow> Inl e
      | Inr (repo, tag) \<Rightarrow>
          start_image_tags roles iid rest
            (if repo \<in> set roles then AList.update repo iid acc else acc))"

fun start_images_of ::
  "string list \<Rightarrow> image list \<Rightarrow> (string \<times> string) list \<Rightarrow> error + (string \<times> string) list" where
  "start_images_of roles [] acc = Inr acc"
| "start_images_of roles (i # rest) acc =
     (case start_image_tags roles (ImageId i) (repotags_of i) acc of
        Inl e \<Rightarrow> Inl e
      | Inr acc' \<Rightarrow> start_images_of roles rest acc')"

text \<open>
  What is handed to \<^verbatim>\<open>e.submit\<close>: \<open>Build n\<close> is \<^verbatim>\<open>build(n)\<close>, the direct build of a
  name; \<open>BuildBuilder b\<close> is \<^verbatim>\<open>self.ensure_built('ansible-%s' % b)\<close>, the build of a
  shared builder; \<open>BuildAnsible bf playbook n builder start_image\<close> is
  \<^verbatim>\<open>build_ansible\<close>, where \<open>bf\<close> names the builder whose future it is given (None for
  no future).
\<close>

datatype task =
    Build string
  | BuildBuilder string
  | BuildAnsible "string option" string string "string option" "string option"

record plan =
  submitted :: "task list"
  builder_fs :: "string list"
  pdocker :: docker

text \<open>
  Lines 631-660, one round of the loop over \<^verbatim>\<open>sorted(missing)\<close>. \<open>clock n\<close> is the
  value of \<^verbatim>\<open>time.time()\<close> when the clobber of role \<open>n\<close> is tested. \<open>builder_fs\<close>
  holds the keys of the dictionary of builder futures.
\<close>

definition submit_role ::
  "string \<Rightarrow> (string \<Rightarrow> stat_result) \<Rightarrow> (string \<Rightarrow> rat) \<Rightarrow> string list
     \<Rightarrow> (string \<times> string \<times> string option) list \<Rightarrow> (string \<times> string) list
     \<Rightarrow> string \<Rightarrow> plan \<Rightarrow> error + plan" where
  "submit_role vct_root getmtime clock names ansibles start_images n p =
     (if n \<in> set names then Inr (p\<lparr>submitted := submitted p @ [Build n]\<rparr>)
      else
        (case map_of ansibles n of
           None \<Rightarrow> Inl (KeyError n)
         | Some (playbook, builder) \<Rightarrow>
             (case (if truthy (map_of start_images n)
                    then (case clobber_needed vct_root getmtime (clock n) (pdocker p) n of
                            (Inl e, d') \<Rightarrow> Inl e
                          | (Inr True, d') \<Rightarrow> Inr (builder, None, d')
                          | (Inr False, d') \<Rightarrow> Inr (None, map_of start_images n, d'))
                    else Inr (builder, map_of start_images n, pdocker p)) of
                Inl e \<Rightarrow> Inl e
              | Inr (builder', start_image', d') \<Rightarrow>
                  (if truthy builder'
                   then
                     (if the builder' \<in> set (builder_fs p)
                      then Inr (p\<lparr>submitted := submitted p
                                     @ [BuildAnsible builder' playbook n builder' start_image'],
                                  pdocker := d'\<rparr>)
                      else Inr (p\<lparr>submitted := submitted p
                                     @ [BuildBuilder (the builder'),
                                        BuildAnsible builder' playbook n builder' start_image'],
                                  builder_fs := builder_fs p @ [the builder'],
                                  pdocker := d'\<rparr>))
                   else Inr (p\<lparr>submitted := submitted p
                                  @ [BuildAnsible None playbook n builder' start_image'],
                               pdocker := d'\<rparr>)))))"

text \<open>
  Lines 630-660: the loop. An exception ends it; what was submitted before stays
  submitted (the executor runs it while the \<^verbatim>\<open>with\<close> block is left). The result is
  the exception, if any, and the plan reached.
\<close>

fun submit_roles ::
  "string \<Rightarrow> (string \<Rightarrow> stat_result) \<Rightarrow> (string \<Rightarrow> rat) \<Rightarrow> string list
     \<Rightarrow> (string \<times> string \<times> string option) list \<Rightarrow> (string \<times> string) list
     \<Rightarrow> string list \<Rightarrow> plan \<Rightarrow> error option \<times> plan" where
  "submit_roles vct_root getmtime clock names ansibles start_images [] p = (None, p)"
| "submit_roles vct_root getmtime clock names ansibles start_images (n # rest) p =
     (case submit_role vct_root getmtime clock names ansibles start_images n p of
        Inl e \<Rightarrow> (Some e, p)
      | Inr p' \<Rightarrow> submit_roles vct_root getmtime clock names ansibles start_images rest p')"

text \<open>
  Lines 567-660: from the arguments to the tasks submitted. \<open>docker_images\<close> is
  \<^verbatim>\<open>all_docker_images()\<close>, \<open>imgs\<close> is \<^verbatim>\<open>api_client.images()\<close>, and \<open>d\<close> is the
  Docker object once the content-sync container of line 625 is acquired. The result
  holds the exception that ends these lines, if any, the images known so far, the tasks
  in the order of their submission, and the Docker object; lines 662-664 then wait for
  the tasks.
\<close>

record submission =
  raised :: "error option"
  known_images :: "(string \<times> string) list"
  submitted_tasks :: "task list"
  docker_after :: docker

definition ensure_images_built ::
  "string \<Rightarrow> (string \<Rightarrow> stat_result) \<Rightarrow> (string \<Rightarrow> rat) \<Rightarrow> string list \<Rightarrow> image list
     \<Rightarrow> docker \<Rightarrow> string list \<Rightarrow> (string \<times> string \<times> string option) list
     \<Rightarrow> (string \<times> string) list \<Rightarrow> bool \<Rightarrow> submission" where
  "ensure_images_built vct_root getmtime clock docker_images imgs d names ansibles existing use_last =
     (let images = known_existing docker_images existing;
          missing = missing_roles names ansibles images
      in case (if use_last then collect_last (get_sorted_images imgs) (images, missing)
               else Inr (images, missing)) of
           Inl e \<Rightarrow>
             \<lparr>raised = Some e, known_images = images, submitted_tasks = [], docker_after = d\<rparr>
         | Inr (images', missing') \<Rightarrow>
             if missing' = []
             then \<lparr>raised = None, known_images = images', submitted_tasks = [],
                   docker_after = d\<rparr>
             else
               (case start_images_of
                       (map fst (filter (\<lambda>(k, v). k \<in> set missing') ansibles))
                       (get_sorted_images imgs) [] of
                  Inl e \<Rightarrow>
                    \<lparr>raised = Some e, known_images = images', submitted_tasks = [],
                     docker_after = d\<rparr>
                | Inr start_images \<Rightarrow>
                    (case submit_roles vct_root getmtime clock names ansibles start_images
                            (sort missing')
                            \<lparr>submitted = [], builder_fs = [], pdocker = d\<rparr> of
                       (err, p) \<Rightarrow>
                         \<lparr>raised = err, known_images = images',
                          submitted_tasks = submitted p, docker_after = pdocker p\<rparr>)))"

text \<open>
  Lines 606-623, \<^verbatim>\<open>build_ansible\<close>. \<open>f_builder\<close> is None for no future, or the
  outcome of the future: the image the builder task returned, or the text of the
  exception that \<^verbatim>\<open>f_builder.result()\<close> raises again.
\<close>

definition build_ansible ::
  "ansible_env \<Rightarrow> bool \<Rightarrow> (string + string) option \<Rightarrow> string \<Rightarrow> string
     \<Rightarrow> string option \<Rightarrow> string option \<Rightarrow> (error + (string \<times> string)) \<times> api_op list" where
  "build_ansible env use_last f_builder playbook repository builder start_image =
     (if truthy start_image \<and> use_last then (Inr (repository, the start_image), [])
      else
        (case f_builder of
           Some (Inl m) \<Rightarrow> (Inl (Propagated m), [])
         | Some (Inr img) \<Rightarrow>
             (case run_ansible env playbook (Some repository) None (Some img) of
                (Inl e, ops) \<Rightarrow> (Inl e, ops)
              | (Inr (iid, repo, tag), ops) \<Rightarrow> (Inr (repository, iid), ops))
         | None \<Rightarrow>
             (case run_ansible env playbook (Some repository) builder start_image of
                (Inl e, ops) \<Rightarrow> (Inl e, ops)
              | (Inr (iid, repo, tag), ops) \<Rightarrow> (Inr (repository, iid), ops))))"

text \<open>
  One submitted task, run by a worker: its result and the calls it makes. The future
  given to \<^verbatim>\<open>build_ansible\<close> is that of the builder task, whose outcome is the
  outcome of \<^verbatim>\<open>ensure_built\<close> on the builder's image name.
\<close>

fun run_task :: "ansible_env \<Rightarrow> bool \<Rightarrow> task \<Rightarrow> (error + (string \<times> string)) \<times> api_op list" where
  "run_task env use_last (Build n) =
     (case ensure_built_result env n of
        Inl m \<Rightarrow> (Inl (Propagated m), [EnsureBuilt n])
      | Inr iid \<Rightarrow> (Inr (n, iid), [EnsureBuilt n]))"
| "run_task env use_last (BuildBuilder b) =
     (case ensure_built_result env (builder_image b) of
        Inl m \<Rightarrow> (Inl (Propagated m), [EnsureBuilt (builder_image b)])
      | Inr iid \<Rightarrow> (Inr (b, iid), [EnsureBuilt (builder_image b)]))"
| "run_task env use_last (BuildAnsible bf playbook n builder start_image) =
     build_ansible env use_last
       (case bf of None \<Rightarrow> None | Some b \<Rightarrow> Some (ensure_built_result env (builder_image b)))
       playbook n builder start_image"

fun is_direct :: "task \<Rightarrow> bool" where
  "is_direct (Build n) = True"
| "is_direct (BuildBuilder b) = False"
| "is_direct (BuildAnsible bf playbook n builder start_image) = False"

section \<open>prune_images (lines 848-907)\<close>

text \<open>
  One entry of \<^verbatim>\<open>api_client.containers()\<close>, the running containers:
  \<^verbatim>\<open>Image\<close>, which the code reads and which holds the name or the id that the
  container was created with, and \<^verbatim>\<open>ImageID\<close>, the id of the image that the
  container runs, which the code does not read.
\<close>

record container =
  ContainerImage :: string
  ContainerImageID :: string

text \<open>Lines 837-846.\<close>

fun get_full_image :: "image list \<Rightarrow> string \<Rightarrow> string" where
  "get_full_image [] img = img"
| "get_full_image (i # rest) img =
     (if take 12 (if startswith (ImageId i) ''sha256:'' then drop 7 (ImageId i) else ImageId i)
           = img
      then ImageId i
      else get_full_image rest img)"

definition ignore_keys :: "string list" where
  "ignore_keys =
     [''last-hgrb-id'', ''last-pulse-id'', ''last-rbweb-id'', ''last-hgmaster-id'',
      ''last-hgweb-id'', ''last-ldap-id'', ''last-vct-id'', ''last-treestatus-id'']"

definition relevant_repos :: "string list" where
  "relevant_repos =
     [''pulse'', ''rbweb'', ''hgmaster'', ''hgrb'', ''hgweb'', ''ldap'', ''vct'', ''treestatus'']"

fun state_get_all :: "(string \<times> jvalue) list \<Rightarrow> string list \<Rightarrow> error + jvalue list" where
  "state_get_all st [] = Inr []"
| "state_get_all st (k # ks) =
     (case state_get st k of
        Inl e \<Rightarrow> Inl e
      | Inr v \<Rightarrow> (case state_get_all st ks of Inl e \<Rightarrow> Inl e | Inr vs \<Rightarrow> Inr (v # vs)))"

fun unhashable :: "jvalue \<Rightarrow> bool" where
  "unhashable (JObj kvs) = True"
| "unhashable v = False"

text \<open>Lines 890-894: the first tag of an image whose repository is relevant.\<close>

fun first_relevant :: "string list \<Rightarrow> error + string option" where
  "first_relevant [] = Inr None"
| "first_relevant (repotag # rest) =
     (case unpack2 (py_split CHR '':'' repotag) of
        Inl e \<Rightarrow> Inl e
      | Inr (repo, tag) \<Rightarrow>
          if repo \<in> set relevant_repos then Inr (Some repo) else first_relevant rest)"

text \<open>Lines 877-894: the dictionary \<^verbatim>\<open>to_delete\<close>, from image id to repository.\<close>

fun select_to_delete ::
  "string list \<Rightarrow> jvalue list \<Rightarrow> image list \<Rightarrow> (string \<times> string) list
     \<Rightarrow> error + (string \<times> string) list" where
  "select_to_delete running ignore_images [] to_delete = Inr to_delete"
| "select_to_delete running ignore_images (i # rest) to_delete =
     (if ImageId i \<in> set running then select_to_delete running ignore_images rest to_delete
      else if JStr (ImageId i) \<in> set ignore_images
      then select_to_delete running ignore_images rest to_delete
      else
        (case first_relevant (repotags_of i) of
           Inl e \<Rightarrow> Inl e
         | Inr None \<Rightarrow> select_to_delete running ignore_images rest to_delete
         | Inr (Some repo) \<Rightarrow>
             select_to_delete running ignore_images rest
               (AList.update (ImageId i) repo to_delete)))"

text \<open>
  The method. \<open>imgs\<close> is \<^verbatim>\<open>api_client.images()\<close> and \<open>cs\<close> is
  \<^verbatim>\<open>api_client.containers()\<close> during the call. The result is the images handed to
  \<^verbatim>\<open>remove_image\<close>, one submission each, and the Docker object afterwards. What the
  daemon answers to a removal is not read.
\<close>

definition prune_images ::
  "image list \<Rightarrow> container list \<Rightarrow> docker \<Rightarrow> error + (string list \<times> docker)" where
  "prune_images imgs cs d =
     (let running = map (\<lambda>c. get_full_image imgs (ContainerImage c)) cs in
      case state_get_all (state d) ignore_keys of
        Inl e \<Rightarrow> Inl e
      | Inr ignore_images \<Rightarrow>
          if list_ex unhashable ignore_images then Inl (Propagated ''TypeError: unhashable type'')
          else
            (case select_to_delete running ignore_images imgs [] of
               Inl e \<Rightarrow> Inl e
             | Inr to_delete \<Rightarrow>
                 (case state_get (state d) ''images'' of
                    Inl e \<Rightarrow> Inl e
                  | Inr (JObj items) \<Rightarrow>
                      Inr (map fst to_delete,
                           save_state
                             (d\<lparr>state :=
                                  AList.update ''images''
                                    (JObj (filter (\<lambda>(key, img). img \<notin> fst ` set to_delete)
                                             items))
                                    (state d)\<rparr>))
                  | Inr v \<Rightarrow> Inl (Propagated ''AttributeError: items''))))"

section \<open>ensure_built: the inclusion directives (lines 423-429 and 482-505)\<close>

definition py_whitespace :: "char \<Rightarrow> bool" where
  "py_whitespace c = (c \<in> set [CHR '' '', CHR 0x09, CHR 0x0A, CHR 0x0B, CHR 0x0C, CHR 0x0D])"

definition rstrip :: "string \<Rightarrow> string" where
  "rstrip s = rev (dropWhile py_whitespace (rev s))"

text \<open>Lines 426-429: the paths named by the lines that start with \<^verbatim>\<open># %include\<close>.\<close>

definition include_paths :: "string list \<Rightarrow> string list" where
  "include_paths lines =
     map (drop (length ''# %include ''))
       (filter (\<lambda>l. startswith l ''# %include'') (map rstrip lines))"

text \<open>Lines 496 and 504: \<^verbatim>\<open>'extra/vct/%s' % f\<close>, the name of a file in the archive.\<close>

definition archive_name :: "string \<Rightarrow> string" where
  "archive_name f = ''extra/vct/'' @ f"

text \<open>
  Lines 492-499: the files of a subtree. The result lists the calls
  \<^verbatim>\<open>tar.add(full, rel)\<close>. The set \<^verbatim>\<open>added\<close> is read and never written.
\<close>

fun add_subtree :: "string \<Rightarrow> string \<Rightarrow> string list \<Rightarrow> string list \<Rightarrow> (string \<times> string) list" where
  "add_subtree vct_root p added [] = []"
| "add_subtree vct_root p added (f # fs) =
     (if \<not> startswith f p \<and> p \<noteq> ''/'' then add_subtree vct_root p added fs
      else if path_join vct_root f \<in> set added then add_subtree vct_root p added fs
      else (path_join vct_root f, archive_name f) # add_subtree vct_root p added fs)"

text \<open>Lines 486-505: the loop over the paths. \<open>exists\<close> is \<^verbatim>\<open>os.path.exists\<close>.\<close>

fun add_vct_paths ::
  "string \<Rightarrow> (string \<Rightarrow> bool) \<Rightarrow> string list \<Rightarrow> string list \<Rightarrow> string list
     \<Rightarrow> error + (string \<times> string) list" where
  "add_vct_paths vct_root exists vct_files added [] = Inr []"
| "add_vct_paths vct_root exists vct_files added (p # ps) =
     (if \<not> exists (path_join vct_root p)
      then Inl (Exception (''specified path not under version control: '' @ p))
      else
        (case add_vct_paths vct_root exists vct_files added ps of
           Inl e \<Rightarrow> Inl e
         | Inr later \<Rightarrow>
             Inr ((if endswith p ''/'' then add_subtree vct_root p added vct_files
                   else if path_join vct_root p \<in> set added then []
                   else [(path_join vct_root p, archive_name p)]) @ later)))"

text \<open>
  Lines 482-505. \<open>vct_files\<close> is the keys of \<^verbatim>\<open>_get_vct_files()\<close>; \<open>vct_paths\<close> is the
  list collected from the build script. The result is the files added to the archive
  for the directives, in order, each with its name in the archive.
\<close>

definition vct_additions ::
  "string \<Rightarrow> (string \<Rightarrow> bool) \<Rightarrow> string list \<Rightarrow> string list \<Rightarrow> error + (string \<times> string) list" where
  "vct_additions vct_root exists vct_files vct_paths =
     (if vct_paths = [] then Inr []
      else add_vct_paths vct_root exists (sort vct_files) [] vct_paths)"

section \<open>What a scope body creates\<close>

text \<open>
  The containers and the networks that the daemon creates for a body, up to the first
  exception: the resources created during the scope.
\<close>

fun containers_created :: "action list \<Rightarrow> string list" where
  "containers_created [] = []"
| "containers_created (Raise e # rest) = []"
| "containers_created (CreateContainer (Inl e) # rest) = []"
| "containers_created (CreateContainer (Inr i) # rest) = i # containers_created rest"
| "containers_created (CreateNetwork (Inl e) # rest) = []"
| "containers_created (CreateNetwork (Inr i) # rest) = containers_created rest"

fun networks_created :: "action list \<Rightarrow> string list" where
  "networks_created [] = []"
| "networks_created (Raise e # rest) = []"
| "networks_created (CreateContainer (Inl e) # rest) = []"
| "networks_created (CreateContainer (Inr i) # rest) = networks_created rest"
| "networks_created (CreateNetwork (Inl e) # rest) = []"
| "networks_created (CreateNetwork (Inr i) # rest) = i # networks_created rest"

fun is_removal :: "api_call \<Rightarrow> bool" where
  "is_removal (RemoveContainer i) = True"
| "is_removal (RemoveNetwork i) = True"
| "is_removal CreateContainerCall = False"
| "is_removal CreateNetworkCall = False"

text \<open>
  Of a list of resources visited in order, with the daemon's answers \<open>rm\<close>: the
  resources up to and including the first whose removal raises, and the exception of
  that removal.
\<close>

definition attempted :: "(string \<Rightarrow> exn option) \<Rightarrow> string list \<Rightarrow> string list" where
  "attempted rm xs =
     takeWhile (\<lambda>x. rm x = None) xs
     @ (case find (\<lambda>x. rm x \<noteq> None) xs of None \<Rightarrow> [] | Some x \<Rightarrow> [x])"

definition first_failure :: "(string \<Rightarrow> exn option) \<Rightarrow> string list \<Rightarrow> exn option" where
  "first_failure rm xs = (case find (\<lambda>x. rm x \<noteq> None) xs of None \<Rightarrow> None | Some x \<Rightarrow> rm x)"

text \<open>
  The containers and the networks in the sets of the scope when the body has ended, in
  the order in which the removal loops visit them.
\<close>

definition visited_containers ::
  "(string list \<Rightarrow> string list) \<Rightarrow> action list \<Rightarrow> client \<Rightarrow> string list" where
  "visited_containers iter body c =
     iter (created_containers (snd (run_body body (enter_scope c))) (new_scope (klass c)))"

definition visited_networks ::
  "(string list \<Rightarrow> string list) \<Rightarrow> action list \<Rightarrow> client \<Rightarrow> string list" where
  "visited_networks iter body c =
     iter (created_networks (snd (run_body body (enter_scope c))) (new_scope (klass c)))"

section \<open>The state of a new Docker object (lines 151-168)\<close>

definition initial_state :: "(string \<times> jvalue) list" where
  "initial_state =
     [(''clobber-hgweb'', JNull), (''clobber-hgmaster'', JNull), (''clobber-hgrb'', JNull),
      (''clobber-rbweb'', JNull), (''images'', JObj []), (''containers'', JObj []),
      (''last-pulse-id'', JNull), (''last-rbweb-id'', JNull),
      (''last-rbweb-bootstrap-id'', JNull), (''last-hgrb-id'', JNull),
      (''last-hgmaster-id'', JNull), (''last-hgweb-id'', JNull), (''last-ldap-id'', JNull),
      (''last-vct-id'', JNull), (''last-treestatus-id'', JNull), (''vct-cid'', JNull)]"

section \<open>What prune_images selects\<close>

text \<open>The repository of a tag \<^verbatim>\<open>repo:tag\<close>: what stands before the first colon.\<close>

definition repo_of :: "string \<Rightarrow> string" where
  "repo_of repotag = hd (py_split CHR '':'' repotag)"

text \<open>
  An image that the loop of lines 877-894 puts into \<^verbatim>\<open>to_delete\<close>: not the image of
  a running container, not one of the last used images, and with a tag of a relevant
  repository.
\<close>

definition selectable :: "string list \<Rightarrow> jvalue list \<Rightarrow> image \<Rightarrow> bool" where
  "selectable running ignore_images i =
     (ImageId i \<notin> set running \<and> JStr (ImageId i) \<notin> set ignore_images \<and>
      list_ex (\<lambda>rt. repo_of rt \<in> set relevant_repos) (repotags_of i))"

section \<open>What the submitted tasks build\<close>

text \<open>The shared builder that a task is the build of.\<close>

fun task_builder :: "task \<Rightarrow> string list" where
  "task_builder (Build n) = []"
| "task_builder (BuildBuilder b) = [b]"
| "task_builder (BuildAnsible bf playbook n builder start_image) = []"

text \<open>The calls that a list of tasks makes, task after task.\<close>

definition task_calls :: "ansible_env \<Rightarrow> bool \<Rightarrow> task list \<Rightarrow> api_op list" where
  "task_calls env use_last ts = concat (map (\<lambda>t. snd (run_task env use_last t)) ts)"

text \<open>
  A provisioning task is given the future of its builder exactly when it has a
  builder.
\<close>

fun awaits_builder :: "task \<Rightarrow> bool" where
  "awaits_builder (Build n) = True"
| "awaits_builder (BuildBuilder b) = True"
| "awaits_builder (BuildAnsible bf playbook n builder start_image) =
     (bf = (if truthy builder then builder else None))"

text \<open>
  The loop invariant of lines 630-660: the keys of \<^verbatim>\<open>builder_fs\<close> are the builders
  whose build was submitted, each once, and every provisioning task with a builder
  waits for that build.
\<close>

definition plan_ok :: "plan \<Rightarrow> bool" where
  "plan_ok p =
     (distinct (builder_fs p) \<and>
      concat (map task_builder (submitted p)) = builder_fs p \<and>
      list_all awaits_builder (submitted p))"

section \<open>Example inputs\<close>


text \<open>Callees that succeed: every build, history and provisioning run answers.\<close>

definition example_env :: ansible_env where
  "example_env =
     \<lparr>ensure_built_result = (\<lambda>n. Inr ''sha256:builder''),
      history_result = (\<lambda>i. Inr []),
      provision_result = (\<lambda>i p r. Inr (''sha256:image'', ''tag''))\<rparr>"

text \<open>A client of the original class, with nothing tracked and no call made.\<close>

definition fresh_client :: client where
  "fresh_client =
     \<lparr>klass = [], created_containers = (\<lambda>n. []), created_networks = (\<lambda>n. []), calls = []\<rparr>"

text \<open>A file system in which one path exists, with the given modification time.\<close>

definition marker_fs :: "string \<Rightarrow> rat \<Rightarrow> string \<Rightarrow> stat_result" where
  "marker_fs p m q = (if q = p then Mtime m else ENOENT)"

text \<open>A Docker object with an empty state and no state file.\<close>

definition empty_docker :: docker where
  "empty_docker = \<lparr>state = [], state_file = NoFile\<rparr>"

text \<open>
  A state in which an image is recorded only as \<^verbatim>\<open>last-rbweb-bootstrap-id\<close>, and
  that image, tagged in the repository \<open>rbweb\<close>.
\<close>

definition bootstrap_image :: image where
  "bootstrap_image = \<lparr>ImageId = ''sha256:aaaa'', Created = 1, RepoTags = Some [''rbweb:bootstrapped'']\<rparr>"

definition bootstrap_docker :: docker where
  "bootstrap_docker =
     \<lparr>state = AList.update ''last-rbweb-bootstrap-id'' (JStr ''sha256:aaaa'') initial_state,
      state_file = NoFile\<rparr>"

text \<open>
  Two images, an old \<open>hgmaster\<close> and the last \<open>ldap\<close>, with the Docker object that
  caches both and the one that remains after pruning.
\<close>

definition stale_images :: "image list" where
  "stale_images =
     [\<lparr>ImageId = ''sha256:bbbb'', Created = 1, RepoTags = Some [''hgmaster:old'']\<rparr>,
      \<lparr>ImageId = ''sha256:cccc'', Created = 2, RepoTags = Some [''ldap:new'']\<rparr>]"

definition stale_docker :: docker where
  "stale_docker =
     \<lparr>state = AList.update ''images''
                (JObj [(''hgmaster'', ''sha256:bbbb''), (''ldap'', ''sha256:cccc'')])
                (AList.update ''last-ldap-id'' (JStr ''sha256:cccc'') initial_state),
      state_file = NoFile\<rparr>"

definition pruned_docker :: docker where
  "pruned_docker =
     \<lparr>state = AList.update ''images'' (JObj [(''ldap'', ''sha256:cccc'')])
                (AList.update ''last-ldap-id'' (JStr ''sha256:cccc'') initial_state),
      state_file = NoFile\<rparr>"

text \<open>
  An image tagged \<open>hgmaster:latest\<close>, a running container created from that tag, and
  a new Docker object.
\<close>

definition tagged_image :: image where
  "tagged_image =
     \<lparr>ImageId = ''sha256:bbbb'', Created = 1, RepoTags = Some [''hgmaster:latest'']\<rparr>"

definition named_container :: container where
  "named_container =
     \<lparr>ContainerImage = ''hgmaster:latest'', ContainerImageID = ''sha256:bbbb''\<rparr>"

definition initial_docker :: docker where
  "initial_docker = \<lparr>state = initial_state, state_file = NoFile\<rparr>"

text \<open>The call of \<^verbatim>\<open>build_hgmo\<close>: two provisioned roles on one builder.\<close>

definition hgmo_ansibles :: "(string \<times> string \<times> string option) list" where
  "hgmo_ansibles =
     [(''hgmaster'', ''docker-hgmaster'', Some ''centos7''),
      (''hgweb'', ''docker-hgweb'', Some ''centos7'')]"

text \<open>One provisioned role on the builder \<open>centos7\<close>.\<close>

definition hgmaster_ansibles :: "(string \<times> string \<times> string option) list" where
  "hgmaster_ansibles = [(''hgmaster'', ''docker-hgmaster'', Some ''centos7'')]"

text \<open>No clobber marker exists; the clock stands at 0.\<close>

definition no_markers :: "string \<Rightarrow> stat_result" where
  "no_markers p = ENOENT"

definition epoch_clock :: "string \<Rightarrow> rat" where
  "epoch_clock n = 0"

text \<open>
  An image pulled from a registry that is named with its port, and an image that
  carries a cache tag of the repository \<open>centos\<close>.
\<close>

definition registry_image :: image where
  "registry_image =
     \<lparr>ImageId = ''sha256:1111'', Created = 2,
      RepoTags = Some [''localhost:5000/centos:latest'']\<rparr>"

definition cached_image :: "string \<Rightarrow> image" where
  "cached_image tag =
     \<lparr>ImageId = ''sha256:2222'', Created = 1, RepoTags = Some [''centos:'' @ tag]\<rparr>"

text \<open>A source tree in which every path asked for exists.\<close>

definition all_exist :: "string \<Rightarrow> bool" where
  "all_exist p = True"

section \<open>run_ansible: the history-depth rebase\<close>







section \<open>run_ansible: the argument check\<close>

text \<open>
  C9. \<open>run_ansible\<close> fails with one of its two \<^verbatim>\<open>ValueError\<close>s exactly when
  \<^verbatim>\<open>builder\<close> and \<^verbatim>\<open>start_image\<close> are both given or both not given (given means
  true in Python: neither None nor empty), and then no operation has been performed:
  no build, no history query, no provisioning run.
\<close>

theorem run_ansible_argument_check:
  "((\<exists>m. fst (run_ansible env playbook repository builder start_image) = Inl (ValueError m))
      = (truthy builder = truthy start_image)) \<and>
   (truthy builder = truthy start_image \<longrightarrow>
      snd (run_ansible env playbook repository builder start_image) = [])"
  by (auto simp: run_ansible_def Let_def split: sum.splits prod.splits)

theorem run_ansible_argument_check_witness:
  "truthy (Some ''centos7'') = truthy (Some ''sha256:start'') \<and>
   (\<exists>m. fst (run_ansible example_env ''docker-hgmaster'' None (Some ''centos7'')
               (Some ''sha256:start'')) = Inl (ValueError m)) \<and>
   snd (run_ansible example_env ''docker-hgmaster'' None (Some ''centos7'')
          (Some ''sha256:start'')) = []"
  using run_ansible_argument_check
    [of example_env "''docker-hgmaster''" None "Some ''centos7''" "Some ''sha256:start''"]
  by simp

section \<open>docker_rollback_on_error\<close>

lemma fold_max_ge: "a \<le> fold max ks (a::nat)"
  by (induction ks arbitrary: a) (auto intro: order_trans [OF max.cobounded2])

lemma fold_max_mem: "x \<in> set ks \<Longrightarrow> x \<le> fold max ks (a::nat)"
proof (induction ks arbitrary: a)
  case Nil
  then show ?case by simp
next
  case (Cons k ks)
  then show ?case
    using fold_max_ge [of "max k a" ks] by auto
qed

lemma new_scope_fresh: "new_scope ks \<notin> set ks"
  using fold_max_mem [of "new_scope ks" ks 0] by (auto simp: new_scope_def)

lemma new_scope_nil: "new_scope [] = 1"
  by (simp add: new_scope_def)

lemma set_set_add: "set (set_add x xs) = insert x (set xs)"
  by (auto simp: set_add_def)

lemma run_body_containers:
  "n \<in> set (klass c) \<Longrightarrow>
   set (created_containers (snd (run_body body c)) n)
     = set (created_containers c n) \<union> set (containers_created body)"
  by (induction body c rule: run_body.induct)
     (auto simp: create_container_def create_network_def track_def set_set_add split: sum.splits)

lemma run_body_networks:
  "n \<in> set (klass c) \<Longrightarrow>
   set (created_networks (snd (run_body body c)) n)
     = set (created_networks c n) \<union> set (networks_created body)"
  by (induction body c rule: run_body.induct)
     (auto simp: create_container_def create_network_def track_def set_set_add split: sum.splits)

lemma run_body_no_removal:
  "filter is_removal (calls (snd (run_body body c))) = filter is_removal (calls c)"
  by (induction body c rule: run_body.induct)
     (auto simp: create_container_def create_network_def split: sum.splits)

lemma attempted_Cons:
  "attempted rm (x # xs) = (case rm x of None \<Rightarrow> x # attempted rm xs | Some e \<Rightarrow> [x])"
  by (simp add: attempted_def split: option.splits)

lemma first_failure_Cons:
  "first_failure rm (x # xs) = (case rm x of None \<Rightarrow> first_failure rm xs | Some e \<Rightarrow> Some e)"
  by (simp add: first_failure_def split: option.splits)

lemma remove_containers_attempted:
  "remove_containers rm xs c
     = (first_failure rm xs, c\<lparr>calls := calls c @ map RemoveContainer (attempted rm xs)\<rparr>)"
proof (induction xs arbitrary: c)
  case Nil
  then show ?case by (simp add: attempted_def first_failure_def)
next
  case (Cons x xs)
  then show ?case
    by (cases "rm x") (simp_all add: attempted_Cons first_failure_Cons)
qed

lemma remove_networks_attempted:
  "remove_networks rm xs c
     = (first_failure rm xs, c\<lparr>calls := calls c @ map RemoveNetwork (attempted rm xs)\<rparr>)"
proof (induction xs arbitrary: c)
  case Nil
  then show ?case by (simp add: attempted_def first_failure_def)
next
  case (Cons x xs)
  then show ?case
    by (cases "rm x") (simp_all add: attempted_Cons first_failure_Cons)
qed

lemma attempted_all:
  "\<forall>x\<in>set xs. rm x = None \<Longrightarrow> attempted rm xs = xs \<and> first_failure rm xs = None"
  by (induction xs) (auto simp: attempted_Cons first_failure_Cons attempted_def first_failure_def)

lemma scope_containers:
  "set (created_containers (snd (run_body body (enter_scope c))) (new_scope (klass c)))
     = set (containers_created body)"
  using run_body_containers [of "new_scope (klass c)" "enter_scope c" body]
  by (simp add: enter_scope_def)

lemma scope_networks:
  "set (created_networks (snd (run_body body (enter_scope c))) (new_scope (klass c)))
     = set (networks_created body)"
  using run_body_networks [of "new_scope (klass c)" "enter_scope c" body]
  by (simp add: enter_scope_def)

lemma visited_sets:
  assumes "\<forall>xs. set (iter xs) = set xs"
  shows "set (visited_containers iter body c) = set (containers_created body)"
    and "set (visited_networks iter body c) = set (networks_created body)"
  using assms by (simp_all add: visited_containers_def visited_networks_def
      scope_containers scope_networks)

lemma rollback_normal:
  assumes "fst (run_body body (enter_scope c)) = None"
  shows "docker_rollback_on_error iter rmc rmn body c
     = (None, (snd (run_body body (enter_scope c)))\<lparr>klass := klass c\<rparr>)"
  using assms
  by (cases "run_body body (enter_scope c)") (simp add: docker_rollback_on_error_def Let_def)

lemma rollback_uncaught:
  assumes "fst (run_body body (enter_scope c)) = Some e" "\<not> is_Exception e"
  shows "docker_rollback_on_error iter rmc rmn body c
     = (Some e, (snd (run_body body (enter_scope c)))\<lparr>klass := klass c\<rparr>)"
  using assms
  by (cases "run_body body (enter_scope c)") (simp add: docker_rollback_on_error_def Let_def)

lemma rollback_raised:
  assumes "fst (run_body body (enter_scope c)) = Some e" "is_Exception e"
  shows "docker_rollback_on_error iter rmc rmn body c
     = ((case first_failure rmc (visited_containers iter body c) of
           Some e' \<Rightarrow> Some e'
         | None \<Rightarrow>
             (case first_failure rmn (visited_networks iter body c) of
                Some e' \<Rightarrow> Some e'
              | None \<Rightarrow> Some e)),
        (snd (run_body body (enter_scope c)))
          \<lparr>klass := klass c,
           calls := calls (snd (run_body body (enter_scope c)))
             @ map RemoveContainer (attempted rmc (visited_containers iter body c))
             @ (if first_failure rmc (visited_containers iter body c) = None
                then map RemoveNetwork (attempted rmn (visited_networks iter body c))
                else [])\<rparr>)"
  using assms
  by (cases "run_body body (enter_scope c)")
     (simp add: docker_rollback_on_error_def Let_def visited_containers_def
        visited_networks_def remove_containers_attempted remove_networks_attempted
      split: option.splits)

text \<open>
  C3, as amended. When the body ends without an exception, the scope ends without one
  and makes no removal call; an exception that is not derived from \<^verbatim>\<open>Exception\<close>
  leaves the scope as it is, and no removal call is made either. When an exception
  \<open>e\<close> derived from \<^verbatim>\<open>Exception\<close> leaves the body, the calls made after the body are
  the removals of the tracked containers in the order of the loop, up to and including
  the first that raises, and then, only if no container removal raised, the removals
  of the tracked networks up to and including the first that raises; the exception
  that leaves the scope is that of the first removal that raised, and \<open>e\<close> itself if
  none did. Whatever the order of iteration, the tracked containers and networks are
  those created during the scope. So when the daemon carries out every removal, a
  removal has been asked for every container and every network created during the
  scope, and \<open>e\<close> leaves the scope.
\<close>

theorem rollback_on_error_cleanup:
  "(fst (run_body body (enter_scope c)) = None \<longrightarrow>
      fst (docker_rollback_on_error iter rmc rmn body c) = None \<and>
      filter is_removal (calls (snd (docker_rollback_on_error iter rmc rmn body c)))
        = filter is_removal (calls c)) \<and>
   (fst (run_body body (enter_scope c)) = Some e \<and> \<not> is_Exception e \<longrightarrow>
      fst (docker_rollback_on_error iter rmc rmn body c) = Some e \<and>
      filter is_removal (calls (snd (docker_rollback_on_error iter rmc rmn body c)))
        = filter is_removal (calls c)) \<and>
   (fst (run_body body (enter_scope c)) = Some e \<and> is_Exception e \<longrightarrow>
      calls (snd (docker_rollback_on_error iter rmc rmn body c))
        = calls (snd (run_body body (enter_scope c)))
          @ map RemoveContainer (attempted rmc (visited_containers iter body c))
          @ (if first_failure rmc (visited_containers iter body c) = None
             then map RemoveNetwork (attempted rmn (visited_networks iter body c))
             else []) \<and>
      fst (docker_rollback_on_error iter rmc rmn body c)
        = (case first_failure rmc (visited_containers iter body c) of
             Some e' \<Rightarrow> Some e'
           | None \<Rightarrow>
               (case first_failure rmn (visited_networks iter body c) of
                  Some e' \<Rightarrow> Some e'
                | None \<Rightarrow> Some e))) \<and>
   ((\<forall>xs. set (iter xs) = set xs) \<longrightarrow>
      set (visited_containers iter body c) = set (containers_created body) \<and>
      set (visited_networks iter body c) = set (networks_created body)) \<and>
   (fst (run_body body (enter_scope c)) = Some e \<and> is_Exception e \<and>
    (\<forall>xs. set (iter xs) = set xs) \<and>
    (\<forall>i\<in>set (containers_created body). rmc i = None) \<and>
    (\<forall>i\<in>set (networks_created body). rmn i = None) \<longrightarrow>
      fst (docker_rollback_on_error iter rmc rmn body c) = Some e \<and>
      (\<forall>i\<in>set (containers_created body).
          RemoveContainer i \<in> set (calls (snd (docker_rollback_on_error iter rmc rmn body c)))) \<and>
      (\<forall>i\<in>set (networks_created body).
          RemoveNetwork i \<in> set (calls (snd (docker_rollback_on_error iter rmc rmn body c)))))"
proof (intro conjI impI)
  assume n: "fst (run_body body (enter_scope c)) = None"
  show "fst (docker_rollback_on_error iter rmc rmn body c) = None"
    by (simp add: rollback_normal [OF n])
  show "filter is_removal (calls (snd (docker_rollback_on_error iter rmc rmn body c)))
        = filter is_removal (calls c)"
    using run_body_no_removal [of body "enter_scope c"]
    by (simp add: rollback_normal [OF n] enter_scope_def)
next
  assume a: "fst (run_body body (enter_scope c)) = Some e \<and> \<not> is_Exception e"
  then have r: "fst (run_body body (enter_scope c)) = Some e" and ne: "\<not> is_Exception e"
    by simp_all
  show "fst (docker_rollback_on_error iter rmc rmn body c) = Some e"
    by (simp add: rollback_uncaught [OF r ne])
  show "filter is_removal (calls (snd (docker_rollback_on_error iter rmc rmn body c)))
        = filter is_removal (calls c)"
    using run_body_no_removal [of body "enter_scope c"]
    by (simp add: rollback_uncaught [OF r ne] enter_scope_def)
next
  assume a: "fst (run_body body (enter_scope c)) = Some e \<and> is_Exception e"
  then have r: "fst (run_body body (enter_scope c)) = Some e" and ie: "is_Exception e"
    by simp_all
  show "calls (snd (docker_rollback_on_error iter rmc rmn body c))
        = calls (snd (run_body body (enter_scope c)))
          @ map RemoveContainer (attempted rmc (visited_containers iter body c))
          @ (if first_failure rmc (visited_containers iter body c) = None
             then map RemoveNetwork (attempted rmn (visited_networks iter body c))
             else [])"
    by (simp add: rollback_raised [OF r ie])
  show "fst (docker_rollback_on_error iter rmc rmn body c)
        = (case first_failure rmc (visited_containers iter body c) of
             Some e' \<Rightarrow> Some e'
           | None \<Rightarrow>
               (case first_failure rmn (visited_networks iter body c) of
                  Some e' \<Rightarrow> Some e'
                | None \<Rightarrow> Some e))"
    by (simp add: rollback_raised [OF r ie])
next
  assume p: "\<forall>xs. set (iter xs) = set xs"
  show "set (visited_containers iter body c) = set (containers_created body)"
    by (rule visited_sets(1) [OF p])
  show "set (visited_networks iter body c) = set (networks_created body)"
    by (rule visited_sets(2) [OF p])
next
  assume a: "fst (run_body body (enter_scope c)) = Some e \<and> is_Exception e \<and>
    (\<forall>xs. set (iter xs) = set xs) \<and>
    (\<forall>i\<in>set (containers_created body). rmc i = None) \<and>
    (\<forall>i\<in>set (networks_created body). rmn i = None)"
  then have r: "fst (run_body body (enter_scope c)) = Some e" and ie: "is_Exception e"
    and p: "\<forall>xs. set (iter xs) = set xs"
    by simp_all
  have vc: "set (visited_containers iter body c) = set (containers_created body)"
    by (rule visited_sets(1) [OF p])
  have vn: "set (visited_networks iter body c) = set (networks_created body)"
    by (rule visited_sets(2) [OF p])
  have ac: "attempted rmc (visited_containers iter body c) = visited_containers iter body c
      \<and> first_failure rmc (visited_containers iter body c) = None"
    by (rule attempted_all) (use a vc in simp)
  have an: "attempted rmn (visited_networks iter body c) = visited_networks iter body c
      \<and> first_failure rmn (visited_networks iter body c) = None"
    by (rule attempted_all) (use a vn in simp)
  show "fst (docker_rollback_on_error iter rmc rmn body c) = Some e"
    by (simp add: rollback_raised [OF r ie] ac an)
  show "\<forall>i\<in>set (containers_created body).
          RemoveContainer i \<in> set (calls (snd (docker_rollback_on_error iter rmc rmn body c)))"
    using vc by (simp add: rollback_raised [OF r ie] ac an)
  show "\<forall>i\<in>set (networks_created body).
          RemoveNetwork i \<in> set (calls (snd (docker_rollback_on_error iter rmc rmn body c)))"
    using vn by (simp add: rollback_raised [OF r ie] ac an)
qed

lemma run_raising_body:
  "run_body [CreateContainer (Inr ''c1''), CreateNetwork (Inr ''n1''), Raise (Exn ''boom'')]
     (enter_scope fresh_client)
   = (Some (Exn ''boom''),
      \<lparr>klass = [1],
       created_containers = (\<lambda>n. if n = 1 then [''c1''] else []),
       created_networks = (\<lambda>n. if n = 1 then [''n1''] else []),
       calls = [CreateContainerCall, CreateNetworkCall]\<rparr>)"
  by (auto simp: enter_scope_def fresh_client_def new_scope_nil create_container_def
      create_network_def track_def set_add_def)

lemma run_quiet_body:
  "fst (run_body [CreateContainer (Inr ''c1''), CreateNetwork (Inr ''n1'')]
          (enter_scope fresh_client)) = None"
  by (simp add: enter_scope_def fresh_client_def new_scope_nil create_container_def
      create_network_def)

theorem rollback_on_error_cleanup_witness:
  "fst (docker_rollback_on_error rev Map.empty Map.empty
          [CreateContainer (Inr ''c1''), CreateNetwork (Inr ''n1''), Raise (Exn ''boom'')]
          fresh_client) = Some (Exn ''boom'') \<and>
   RemoveContainer ''c1'' \<in> set (calls (snd (docker_rollback_on_error rev Map.empty Map.empty
          [CreateContainer (Inr ''c1''), CreateNetwork (Inr ''n1''), Raise (Exn ''boom'')]
          fresh_client))) \<and>
   RemoveNetwork ''n1'' \<in> set (calls (snd (docker_rollback_on_error rev Map.empty Map.empty
          [CreateContainer (Inr ''c1''), CreateNetwork (Inr ''n1''), Raise (Exn ''boom'')]
          fresh_client))) \<and>
   fst (docker_rollback_on_error rev Map.empty Map.empty
          [CreateContainer (Inr ''c1''), CreateNetwork (Inr ''n1'')] fresh_client) = None \<and>
   filter is_removal (calls (snd (docker_rollback_on_error rev Map.empty Map.empty
          [CreateContainer (Inr ''c1''), CreateNetwork (Inr ''n1'')] fresh_client))) = [] \<and>
   fst (docker_rollback_on_error rev Map.empty Map.empty
          [Raise (BaseExn ''KeyboardInterrupt'')] fresh_client)
     = Some (BaseExn ''KeyboardInterrupt'')"
proof -
  let ?raising = "[CreateContainer (Inr ''c1''), CreateNetwork (Inr ''n1''), Raise (Exn ''boom'')]"
  let ?quiet = "[CreateContainer (Inr ''c1''), CreateNetwork (Inr ''n1'')]"
  let ?interrupted = "[Raise (BaseExn ''KeyboardInterrupt'')]"
  have raised:
    "fst (docker_rollback_on_error rev Map.empty Map.empty ?raising fresh_client)
       = Some (Exn ''boom'') \<and>
     (\<forall>i\<in>set (containers_created ?raising).
        RemoveContainer i
          \<in> set (calls (snd (docker_rollback_on_error rev Map.empty Map.empty ?raising
                                fresh_client)))) \<and>
     (\<forall>i\<in>set (networks_created ?raising).
        RemoveNetwork i
          \<in> set (calls (snd (docker_rollback_on_error rev Map.empty Map.empty ?raising
                                fresh_client))))"
    by (rule rollback_on_error_cleanup
          [of ?raising fresh_client rev Map.empty Map.empty "Exn ''boom''",
           THEN conjunct2, THEN conjunct2, THEN conjunct2, THEN conjunct2, THEN mp])
       (simp only: run_raising_body, simp)
  have quiet:
    "fst (docker_rollback_on_error rev Map.empty Map.empty ?quiet fresh_client) = None \<and>
     filter is_removal
       (calls (snd (docker_rollback_on_error rev Map.empty Map.empty ?quiet fresh_client)))
       = filter is_removal (calls fresh_client)"
    by (rule rollback_on_error_cleanup
          [of ?quiet fresh_client rev Map.empty Map.empty "Exn ''boom''",
           THEN conjunct1, THEN mp])
       (rule run_quiet_body)
  have interrupted:
    "fst (docker_rollback_on_error rev Map.empty Map.empty ?interrupted fresh_client)
       = Some (BaseExn ''KeyboardInterrupt'') \<and>
     filter is_removal
       (calls (snd (docker_rollback_on_error rev Map.empty Map.empty ?interrupted
                      fresh_client)))
       = filter is_removal (calls fresh_client)"
    by (rule rollback_on_error_cleanup
          [of ?interrupted fresh_client rev Map.empty Map.empty "BaseExn ''KeyboardInterrupt''",
           THEN conjunct2, THEN conjunct1, THEN mp])
       simp
  have no_calls: "filter is_removal (calls fresh_client) = []"
    by (simp add: fresh_client_def)
  show ?thesis
    using raised quiet interrupted no_calls by simp
qed

text \<open>
  C3 as stated fails. The body creates container \<open>c1\<close> and network \<open>n1\<close> and raises
  \<open>boom\<close>; the daemon refuses to remove \<open>c1\<close>. The exception that leaves the scope is
  the daemon's, not \<open>boom\<close>, and the removal of \<open>n1\<close> is never asked for.
\<close>

theorem rollback_cleanup_counterexample:
  "fst (docker_rollback_on_error id [''c1'' \<mapsto> Exn ''409 Conflict''] Map.empty
          [CreateContainer (Inr ''c1''), CreateNetwork (Inr ''n1''), Raise (Exn ''boom'')]
          fresh_client) = Some (Exn ''409 Conflict'') \<and>
   calls (snd (docker_rollback_on_error id [''c1'' \<mapsto> Exn ''409 Conflict''] Map.empty
          [CreateContainer (Inr ''c1''), CreateNetwork (Inr ''n1''), Raise (Exn ''boom'')]
          fresh_client)) = [CreateContainerCall, CreateNetworkCall, RemoveContainer ''c1'']"
  by (simp add: docker_rollback_on_error_def Let_def enter_scope_def fresh_client_def
      new_scope_nil create_container_def create_network_def track_def set_add_def)

text \<open>
  C10. Whatever the body does and however the scope ends (normally, with the body's
  exception, with the exception of a removal, or with an exception that is not caught),
  and in whatever order the sets are visited, the class of the client afterwards is the
  class it had before the scope. A creation call made on the client afterwards does
  not reach the sets of the scope: they are the same after the call as before.
\<close>

theorem rollback_restores_class:
  "klass (snd (docker_rollback_on_error iter rmc rmn body c)) = klass c \<and>
   created_containers
     (snd (create_container (snd (docker_rollback_on_error iter rmc rmn body c)) res))
     (new_scope (klass c))
     = created_containers (snd (docker_rollback_on_error iter rmc rmn body c))
         (new_scope (klass c)) \<and>
   created_networks
     (snd (create_network (snd (docker_rollback_on_error iter rmc rmn body c)) res))
     (new_scope (klass c))
     = created_networks (snd (docker_rollback_on_error iter rmc rmn body c))
         (new_scope (klass c))"
proof -
  have k: "klass (snd (docker_rollback_on_error iter rmc rmn body c)) = klass c"
    by (auto simp: docker_rollback_on_error_def Let_def split: prod.splits option.splits)
  show ?thesis
    using new_scope_fresh [of "klass c"]
    by (auto simp: k create_container_def create_network_def track_def split: sum.splits)
qed

theorem rollback_restores_class_witness:
  "klass (snd (docker_rollback_on_error id Map.empty Map.empty
          [CreateContainer (Inr ''c1''), Raise (BaseExn ''KeyboardInterrupt'')]
          fresh_client)) = klass fresh_client"
  using rollback_restores_class
    [of id Map.empty Map.empty
        "[CreateContainer (Inr ''c1''), Raise (BaseExn ''KeyboardInterrupt'')]" fresh_client]
  by simp

section \<open>clobber_needed\<close>

lemma stored_after_update:
  "stored_clobber (d\<lparr>state := AList.update (clobber_key name) v (state d)\<rparr>) name = v"
  by (simp add: stored_clobber_def update_conv')

lemma marker_path_hgmaster:
  "marker_path ''/vct'' ''hgmaster'' = ''/vct/testing/clobber.hgmaster''"
  by (simp add: marker_path_def path_join_def startswith_def endswith_def)

lemma py_int_example: "py_int (401 / 2) = 200"
  by code_simp

text \<open>
  C4, as amended. For a role whose marker file exists, \<open>clobber_needed\<close> answers True
  exactly when nothing is stored for the role or the marker's modification time is
  greater than the stored value. When it answers True, the stored value becomes the
  time of the call cut to an integer, \<^verbatim>\<open>int(time.time())\<close>; when it answers False,
  nothing changes. So after a call that answered True at time \<open>now\<close>, the next call
  answers True exactly when the marker's modification time is then greater than
  \<open>int(now)\<close>.
\<close>

theorem clobber_needed_marker:
  "(getmtime (marker_path vct_root name) = Mtime m \<longrightarrow>
      fst (clobber_needed vct_root getmtime now d name)
        = Inr (stored_clobber d name = JNull \<or> num_gt m (stored_clobber d name)) \<and>
      (fst (clobber_needed vct_root getmtime now d name) = Inr True \<longrightarrow>
         stored_clobber (snd (clobber_needed vct_root getmtime now d name)) name
           = JNum (of_int (py_int now))) \<and>
      (fst (clobber_needed vct_root getmtime now d name) = Inr False \<longrightarrow>
         snd (clobber_needed vct_root getmtime now d name) = d)) \<and>
   (getmtime (marker_path vct_root name) = Mtime m \<and>
    fst (clobber_needed vct_root getmtime now d name) = Inr True \<and>
    getmtime' (marker_path vct_root name) = Mtime m' \<longrightarrow>
      fst (clobber_needed vct_root getmtime' now'
             (snd (clobber_needed vct_root getmtime now d name)) name)
        = Inr (of_int (py_int now) < m'))"
  by (auto simp: clobber_needed_def stored_after_update)

theorem clobber_needed_marker_witness:
  "fst (clobber_needed ''/vct'' (marker_fs ''/vct/testing/clobber.hgmaster'' 100) (401 / 2)
          empty_docker ''hgmaster'') = Inr True \<and>
   stored_clobber
     (snd (clobber_needed ''/vct'' (marker_fs ''/vct/testing/clobber.hgmaster'' 100) (401 / 2)
             empty_docker ''hgmaster'')) ''hgmaster'' = JNum 200 \<and>
   fst (clobber_needed ''/vct'' (marker_fs ''/vct/testing/clobber.hgmaster'' 250) 300
          (snd (clobber_needed ''/vct'' (marker_fs ''/vct/testing/clobber.hgmaster'' 100)
                  (401 / 2) empty_docker ''hgmaster'')) ''hgmaster'') = Inr True"
  using clobber_needed_marker
    [of "marker_fs ''/vct/testing/clobber.hgmaster'' 100" "''/vct''" "''hgmaster''" 100
        "401 / 2" empty_docker "marker_fs ''/vct/testing/clobber.hgmaster'' 250" 250 300]
  by (simp add: marker_path_hgmaster marker_fs_def empty_docker_def stored_clobber_def
      clobber_key_def py_int_example)

text \<open>
  C4 as stated fails. The marker of \<open>hgmaster\<close> has modification time 100 and nothing
  is stored; the call at time 200.5 answers True and stores 200, not 100. The marker's
  modification time then rises to 150, and the next call answers False: no rebuild.
\<close>

theorem clobber_needed_mtime_counterexample:
  "fst (clobber_needed ''/vct'' (marker_fs ''/vct/testing/clobber.hgmaster'' 100) (401 / 2)
          empty_docker ''hgmaster'') = Inr True \<and>
   stored_clobber
     (snd (clobber_needed ''/vct'' (marker_fs ''/vct/testing/clobber.hgmaster'' 100) (401 / 2)
             empty_docker ''hgmaster'')) ''hgmaster'' = JNum 200 \<and>
   fst (clobber_needed ''/vct'' (marker_fs ''/vct/testing/clobber.hgmaster'' 150) 300
          (snd (clobber_needed ''/vct'' (marker_fs ''/vct/testing/clobber.hgmaster'' 100)
                  (401 / 2) empty_docker ''hgmaster'')) ''hgmaster'') = Inr False"
  by (simp add: clobber_needed_def marker_path_hgmaster marker_fs_def empty_docker_def
      stored_clobber_def clobber_key_def py_int_example)

text \<open>
  What a True answer does in \<open>ensure_images_built\<close>: the role that has a start image
  is submitted with its builder and without the start image.
\<close>

lemma submit_role_clobber:
  assumes "n \<notin> set names" "map_of ansibles n = Some (playbook, Some b)" "b \<noteq> []"
    "truthy (map_of start_images n)"
    "fst (clobber_needed vct_root getmtime (clock n) (pdocker p) n) = Inr True"
    "submit_role vct_root getmtime clock names ansibles start_images n p = Inr p'"
  shows "last (submitted p') = BuildAnsible (Some b) playbook n (Some b) None"
  using assms
  by (cases "clobber_needed vct_root getmtime (clock n) (pdocker p) n")
     (auto simp: submit_role_def split: if_splits)

section \<open>save_state\<close>

lemma prune_images_empty:
  "prune_images [] [] \<lparr>state = initial_state, state_file = NoFile\<rparr>
     = Inr ([], \<lparr>state = initial_state, state_file = Document initial_state\<rparr>)"
  by (simp add: prune_images_def ignore_keys_def initial_state_def state_get_def
      save_state_def file_after_steps_def save_state_writes_def)

text \<open>
  C7, as amended. \<open>save_state\<close> rewrites the whole document in place: it leaves the
  state unchanged and, once it has returned, the file holds the entire current
  document. Before its first step the file is what it was; after the first step (the
  truncating \<^verbatim>\<open>open\<close>) the file holds less than a document. A mutation by
  \<open>clobber_needed\<close> is not followed by a write: the file is what it was. The mutation
  by \<open>prune_images\<close> is followed by the rewrite: when it returns, the file holds the
  document of the state it returns.
\<close>

theorem save_state_rewrites_document:
  "state (save_state d) = state d \<and>
   state_file (save_state d) = Document (state d) \<and>
   file_after_steps d 0 = state_file d \<and>
   file_after_steps d 1 = Incomplete \<and>
   state_file (snd (clobber_needed vct_root getmtime now d name)) = state_file d \<and>
   (prune_images imgs cs d = Inr (deleted, d') \<longrightarrow> state_file d' = Document (state d'))"
  by (auto simp: save_state_def file_after_steps_def save_state_writes_def clobber_needed_def
      prune_images_def Let_def split: sum.splits jvalue.splits if_splits stat_result.splits)

theorem save_state_rewrites_document_witness:
  "prune_images [] [] \<lparr>state = initial_state, state_file = NoFile\<rparr>
     = Inr ([], \<lparr>state = initial_state, state_file = Document initial_state\<rparr>) \<and>
   state_file \<lparr>state = initial_state, state_file = Document initial_state\<rparr>
     = Document (state \<lparr>state = initial_state, state_file = Document initial_state\<rparr>) \<and>
   state_file (save_state empty_docker) = Document (state empty_docker)"
  using save_state_rewrites_document
    [of empty_docker "''/vct''" "marker_fs ''/vct/testing/clobber.hgmaster'' 100" 300
        "''hgmaster''"]
    save_state_rewrites_document
    [of "\<lparr>state = initial_state, state_file = NoFile\<rparr>" "''/vct''"
        "marker_fs ''/vct/testing/clobber.hgmaster'' 100" 300 "''hgmaster''" "[]" "[]" "[]"
        "\<lparr>state = initial_state, state_file = Document initial_state\<rparr>"]
    prune_images_empty
  by simp

text \<open>
  C7 as stated fails. The file holds a whole document; the state has since changed.
  A process that stops after the first step of \<open>save_state\<close> leaves a file that holds
  neither the previous document nor the new one.
\<close>

theorem save_state_atomic_counterexample:
  "file_after_steps
     \<lparr>state = [(''vct-cid'', JStr ''4f2a'')], state_file = Document [(''vct-cid'', JNull)]\<rparr> 1
     = Incomplete"
  by (simp add: file_after_steps_def save_state_writes_def)

section \<open>prune_images\<close>

lemma unpack2_Inr: "unpack2 xs = Inr (a, b) \<Longrightarrow> xs = [a, b]"
  by (cases xs rule: unpack2.cases) auto

lemma first_relevant_None:
  "first_relevant ts = Inr None \<Longrightarrow> \<forall>rt\<in>set ts. repo_of rt \<notin> set relevant_repos"
proof (induction ts)
  case Nil
  then show ?case by simp
next
  case (Cons rt ts)
  then show ?case
    by (auto simp: repo_of_def split: sum.splits if_splits dest!: unpack2_Inr)
qed

lemma first_relevant_Some:
  "first_relevant ts = Inr (Some repo) \<Longrightarrow>
   \<exists>rt\<in>set ts. repo_of rt = repo \<and> repo \<in> set relevant_repos"
proof (induction ts)
  case Nil
  then show ?case by simp
next
  case (Cons rt ts)
  then show ?case
    by (auto simp: repo_of_def split: sum.splits if_splits dest!: unpack2_Inr)
qed

lemma select_to_delete_keys:
  "select_to_delete running ign imgs acc = Inr td \<Longrightarrow>
   fst ` set td = fst ` set acc \<union> ImageId ` {i \<in> set imgs. selectable running ign i}"
proof (induction imgs arbitrary: acc)
  case Nil
  then show ?case by simp
next
  case (Cons i imgs)
  show ?case
  proof (cases "ImageId i \<in> set running \<or> JStr (ImageId i) \<in> set ign")
    case True
    then have "select_to_delete running ign imgs acc = Inr td"
      using Cons.prems by (auto split: if_splits)
    from Cons.IH [OF this] True show ?thesis
      by (auto simp: selectable_def)
  next
    case False
    show ?thesis
    proof (cases "first_relevant (repotags_of i)")
      case (Inl e)
      with False Cons.prems show ?thesis by simp
    next
      case (Inr r)
      show ?thesis
      proof (cases r)
        case None
        then have s: "select_to_delete running ign imgs acc = Inr td"
          using Cons.prems False Inr by simp
        have "\<not> selectable running ign i"
          using first_relevant_None [of "repotags_of i"] Inr None
          by (auto simp: selectable_def list_ex_iff)
        with Cons.IH [OF s] show ?thesis by auto
      next
        case (Some repo)
        then have s: "select_to_delete running ign imgs (AList.update (ImageId i) repo acc) = Inr td"
          using Cons.prems False Inr by simp
        have "selectable running ign i"
          using first_relevant_Some [of "repotags_of i" repo] Inr Some False
          by (auto simp: selectable_def list_ex_iff)
        with Cons.IH [OF s] show ?thesis
          by (auto simp: dom_update image_iff)
      qed
    qed
  qed
qed

lemma select_to_delete_distinct:
  "select_to_delete running ign imgs acc = Inr td \<Longrightarrow> distinct (map fst acc) \<Longrightarrow>
   distinct (map fst td)"
proof (induction imgs arbitrary: acc)
  case Nil
  then show ?case by simp
next
  case (Cons i imgs)
  then show ?case
    by (auto simp: distinct_update split: if_splits sum.splits option.splits)
qed

lemma state_get_all_mem:
  "state_get_all st ks = Inr vs \<Longrightarrow> k \<in> set ks \<Longrightarrow> map_of st k = Some v \<Longrightarrow> v \<in> set vs"
  by (induction ks arbitrary: vs) (auto simp: state_get_def split: sum.splits option.splits)

lemma state_get_all_mem':
  "state_get_all st ks = Inr vs \<Longrightarrow> v \<in> set vs \<Longrightarrow> \<exists>k\<in>set ks. map_of st k = Some v"
  by (induction ks arbitrary: vs) (auto simp: state_get_def split: sum.splits option.splits)

lemma state_save_state: "state (save_state d) = state d"
  by (simp add: save_state_def)

lemma prune_images_Inr:
  assumes "prune_images imgs cs d = Inr (deleted, d')"
  obtains ign td items where
    "state_get_all (state d) ignore_keys = Inr ign"
    "select_to_delete (map (\<lambda>c. get_full_image imgs (ContainerImage c)) cs) ign imgs [] = Inr td"
    "deleted = map fst td"
    "map_of (state d) ''images'' = Some (JObj items)"
    "map_of (state d') ''images''
       = Some (JObj (filter (\<lambda>(key, img). img \<notin> set deleted) items))"
  using assms
  by (auto simp: prune_images_def Let_def state_get_def state_save_state update_conv'
      split: sum.splits if_splits jvalue.splits option.splits)

lemma prune_example:
  "prune_images stale_images [] stale_docker = Inr ([''sha256:bbbb''], save_state pruned_docker)"
  by (simp add: stale_images_def stale_docker_def pruned_docker_def initial_state_def
      prune_images_def ignore_keys_def state_get_def repotags_of_def relevant_repos_def)

text \<open>
  What holds of a call that completes: the image that \<open>get_full_image\<close> resolves a
  running container's \<^verbatim>\<open>Image\<close> to is not handed to \<^verbatim>\<open>remove_image\<close>; no
  image recorded under one of the eight keys of \<open>ignore_keys\<close> is; every other listed
  image with a tag of a relevant repository is; what is handed over are listed images
  with such a tag, each once; and the \<^verbatim>\<open>images\<close> mapping of the state afterwards is
  the one before without the entries that point at an image handed over.
\<close>

lemma prune_images_completed:
  "prune_images imgs cs d = Inr (deleted, d') \<longrightarrow>
     (\<forall>c\<in>set cs. get_full_image imgs (ContainerImage c) \<notin> set deleted) \<and>
     (\<forall>k\<in>set ignore_keys. \<forall>iid. map_of (state d) k = Some (JStr iid) \<longrightarrow> iid \<notin> set deleted) \<and>
     (\<forall>i\<in>set imgs.
        (\<forall>c\<in>set cs. get_full_image imgs (ContainerImage c) \<noteq> ImageId i) \<and>
        (\<forall>k\<in>set ignore_keys. map_of (state d) k \<noteq> Some (JStr (ImageId i))) \<and>
        (\<exists>rt\<in>set (repotags_of i). repo_of rt \<in> set relevant_repos)
        \<longrightarrow> ImageId i \<in> set deleted) \<and>
     (\<forall>x\<in>set deleted. \<exists>i\<in>set imgs. ImageId i = x \<and>
                          (\<exists>rt\<in>set (repotags_of i). repo_of rt \<in> set relevant_repos)) \<and>
     distinct deleted \<and>
     (\<exists>items. map_of (state d) ''images'' = Some (JObj items) \<and>
              map_of (state d') ''images''
                = Some (JObj (filter (\<lambda>(key, img). img \<notin> set deleted) items)))"
proof
  assume a: "prune_images imgs cs d = Inr (deleted, d')"
  from a obtain ign td items where
    ig: "state_get_all (state d) ignore_keys = Inr ign" and
    sel: "select_to_delete (map (\<lambda>c. get_full_image imgs (ContainerImage c)) cs) ign imgs [] = Inr td" and
    del: "deleted = map fst td" and
    im: "map_of (state d) ''images'' = Some (JObj items)" and
    im': "map_of (state d') ''images''
       = Some (JObj (filter (\<lambda>(key, img). img \<notin> set deleted) items))"
    by (rule prune_images_Inr)
  let ?running = "map (\<lambda>c. get_full_image imgs (ContainerImage c)) cs"
  have keys: "set deleted = ImageId ` {i \<in> set imgs. selectable ?running ign i}"
    using select_to_delete_keys [OF sel] del by simp
  have ign_sub: "\<And>k v. k \<in> set ignore_keys \<Longrightarrow> map_of (state d) k = Some v \<Longrightarrow> v \<in> set ign"
    using state_get_all_mem [OF ig] by blast
  have ign_sup: "\<And>v. v \<in> set ign \<Longrightarrow> \<exists>k\<in>set ignore_keys. map_of (state d) k = Some v"
    using state_get_all_mem' [OF ig] by blast
  show "(\<forall>c\<in>set cs. get_full_image imgs (ContainerImage c) \<notin> set deleted) \<and>
     (\<forall>k\<in>set ignore_keys. \<forall>iid. map_of (state d) k = Some (JStr iid) \<longrightarrow> iid \<notin> set deleted) \<and>
     (\<forall>i\<in>set imgs.
        (\<forall>c\<in>set cs. get_full_image imgs (ContainerImage c) \<noteq> ImageId i) \<and>
        (\<forall>k\<in>set ignore_keys. map_of (state d) k \<noteq> Some (JStr (ImageId i))) \<and>
        (\<exists>rt\<in>set (repotags_of i). repo_of rt \<in> set relevant_repos)
        \<longrightarrow> ImageId i \<in> set deleted) \<and>
     (\<forall>x\<in>set deleted. \<exists>i\<in>set imgs. ImageId i = x \<and>
                          (\<exists>rt\<in>set (repotags_of i). repo_of rt \<in> set relevant_repos)) \<and>
     distinct deleted \<and>
     (\<exists>items. map_of (state d) ''images'' = Some (JObj items) \<and>
              map_of (state d') ''images''
                = Some (JObj (filter (\<lambda>(key, img). img \<notin> set deleted) items)))"
  proof (intro conjI)
    have nr: "\<And>x. x \<in> set deleted \<Longrightarrow> x \<notin> set ?running"
      using keys by (auto simp: selectable_def)
    show "\<forall>c\<in>set cs. get_full_image imgs (ContainerImage c) \<notin> set deleted"
    proof
      fix c
      assume "c \<in> set cs"
      then have "get_full_image imgs (ContainerImage c) \<in> set ?running"
        by simp
      then show "get_full_image imgs (ContainerImage c) \<notin> set deleted"
        using nr by blast
    qed
    show "\<forall>k\<in>set ignore_keys. \<forall>iid. map_of (state d) k = Some (JStr iid) \<longrightarrow> iid \<notin> set deleted"
      using ign_sub by (auto simp: keys selectable_def)
    show "\<forall>i\<in>set imgs.
        (\<forall>c\<in>set cs. get_full_image imgs (ContainerImage c) \<noteq> ImageId i) \<and>
        (\<forall>k\<in>set ignore_keys. map_of (state d) k \<noteq> Some (JStr (ImageId i))) \<and>
        (\<exists>rt\<in>set (repotags_of i). repo_of rt \<in> set relevant_repos)
        \<longrightarrow> ImageId i \<in> set deleted"
    proof (intro ballI impI)
      fix i
      assume i: "i \<in> set imgs" and h: "(\<forall>c\<in>set cs. get_full_image imgs (ContainerImage c) \<noteq> ImageId i) \<and>
        (\<forall>k\<in>set ignore_keys. map_of (state d) k \<noteq> Some (JStr (ImageId i))) \<and>
        (\<exists>rt\<in>set (repotags_of i). repo_of rt \<in> set relevant_repos)"
      have "JStr (ImageId i) \<notin> set ign"
        using ign_sup h by blast
      then have "selectable ?running ign i"
        using h by (fastforce simp: selectable_def list_ex_iff)
      then show "ImageId i \<in> set deleted"
        using i keys by blast
    qed
    show "\<forall>x\<in>set deleted. \<exists>i\<in>set imgs. ImageId i = x \<and>
                          (\<exists>rt\<in>set (repotags_of i). repo_of rt \<in> set relevant_repos)"
      by (auto simp: keys selectable_def list_ex_iff)
    show "distinct deleted"
      using select_to_delete_distinct [OF sel] del by simp
    show "\<exists>items. map_of (state d) ''images'' = Some (JObj items) \<and>
              map_of (state d') ''images''
                = Some (JObj (filter (\<lambda>(key, img). img \<notin> set deleted) items))"
      using im im' by blast
  qed
qed

text \<open>
  An image recorded in the state only as \<^verbatim>\<open>last-rbweb-bootstrap-id\<close> is handed to
  \<^verbatim>\<open>remove_image\<close>: the list of line 853 leaves that key out.
\<close>

lemma prune_images_bootstrap_unprotected:
  "map_of (state bootstrap_docker) ''last-rbweb-bootstrap-id'' = Some (JStr ''sha256:aaaa'') \<and>
   map_sum id fst (prune_images [bootstrap_image] [] bootstrap_docker) = Inr [''sha256:aaaa'']"
  by (simp add: bootstrap_docker_def bootstrap_image_def initial_state_def prune_images_def
      ignore_keys_def state_get_def repotags_of_def relevant_repos_def)

text \<open>
  C6: the code at an input on which it departs from the claim. A container runs from
  the image \<open>sha256:bbbb\<close> and was created from its tag \<open>hgmaster:latest\<close>, which is
  what the daemon lists as the container's \<^verbatim>\<open>Image\<close>. No image id begins with that
  name, so \<open>get_full_image\<close> returns the name itself, the set \<^verbatim>\<open>running\<close> holds a
  name and no image id, and the image of the running container is handed to
  \<^verbatim>\<open>remove_image\<close>.
\<close>

theorem prune_images_running_by_name:
  "ContainerImageID named_container = ImageId tagged_image \<and>
   get_full_image [tagged_image] (ContainerImage named_container) = ''hgmaster:latest'' \<and>
   map_sum id fst (prune_images [tagged_image] [named_container] initial_docker)
     = Inr [''sha256:bbbb'']"
  by (simp add: named_container_def tagged_image_def initial_docker_def initial_state_def
      prune_images_def ignore_keys_def state_get_def repotags_of_def relevant_repos_def
      startswith_def)

section \<open>ensure_images_built: shared builders\<close>

lemma submit_role_ok:
  assumes "submit_role vct_root getmtime clock names ansibles start_images n p = Inr p'"
    and "plan_ok p"
  shows "plan_ok p'"
  using assms
  by (auto simp: submit_role_def plan_ok_def
      split: if_splits option.splits sum.splits prod.splits bool.splits)

lemma submit_roles_ok:
  "plan_ok p \<Longrightarrow>
   plan_ok (snd (submit_roles vct_root getmtime clock names ansibles start_images roles p))"
proof (induction roles arbitrary: p)
  case Nil
  then show ?case by simp
next
  case (Cons n roles)
  then show ?case
    by (auto split: sum.splits dest: submit_role_ok)
qed

lemma submit_roles_tasks:
  "distinct (concat (map task_builder
       (submitted (snd (submit_roles vct_root getmtime clock names ansibles start_images roles
                          \<lparr>submitted = [], builder_fs = [], pdocker = d\<rparr>))))) \<and>
   list_all awaits_builder
       (submitted (snd (submit_roles vct_root getmtime clock names ansibles start_images roles
                          \<lparr>submitted = [], builder_fs = [], pdocker = d\<rparr>)))"
proof -
  have "plan_ok \<lparr>submitted = [], builder_fs = [], pdocker = d\<rparr>"
    by (simp add: plan_ok_def)
  then have "plan_ok (snd (submit_roles vct_root getmtime clock names ansibles start_images roles
                             \<lparr>submitted = [], builder_fs = [], pdocker = d\<rparr>))"
    by (rule submit_roles_ok)
  then show ?thesis
    by (auto simp: plan_ok_def)
qed

lemma ensure_images_built_ok:
  "distinct (concat (map task_builder
       (submitted_tasks (ensure_images_built vct_root getmtime clock docker_images imgs d names
                           ansibles existing use_last)))) \<and>
   list_all awaits_builder
       (submitted_tasks (ensure_images_built vct_root getmtime clock docker_images imgs d names
                           ansibles existing use_last))"
  by (simp add: ensure_images_built_def Let_def case_prod_beta submit_roles_tasks
      split: sum.splits)

lemma run_ansible_no_builder:
  "\<not> truthy builder \<Longrightarrow>
   EnsureBuilt x \<notin> set (snd (run_ansible env playbook repository builder start_image))"
  by (auto simp: run_ansible_def Let_def split: sum.splits prod.splits)

lemma run_ansible_no_builder':
  "run_ansible env playbook repository builder start_image = (r, ops) \<Longrightarrow> \<not> truthy builder \<Longrightarrow>
   EnsureBuilt x \<notin> set ops"
  using run_ansible_no_builder [of builder x env playbook repository start_image] by simp

lemma build_ansible_no_build:
  "fb \<noteq> None \<or> \<not> truthy builder \<Longrightarrow>
   EnsureBuilt x \<notin> set (snd (build_ansible env use_last fb playbook n builder start_image))"
proof (cases fb)
  case None
  assume "fb \<noteq> None \<or> \<not> truthy builder"
  with None have nb: "\<not> truthy builder" by simp
  show ?thesis
    using None run_ansible_no_builder' [OF _ nb]
    by (auto simp: build_ansible_def split: sum.splits prod.splits)
next
  case (Some res)
  have nb: "\<not> truthy None" by simp
  show ?thesis
    using Some run_ansible_no_builder' [OF _ nb]
    by (auto simp: build_ansible_def split: sum.splits prod.splits)
qed

lemma task_ops_count:
  "awaits_builder t \<Longrightarrow> \<not> is_direct t \<Longrightarrow>
   count_list (snd (run_task env use_last t)) (EnsureBuilt (builder_image b))
     = count_list (task_builder t) b"
proof (cases t)
  case (Build n)
  assume "\<not> is_direct t"
  with Build show ?thesis by simp
next
  case (BuildBuilder b')
  then show ?thesis by (simp add: builder_image_def split: sum.splits)
next
  case (BuildAnsible bf playbook n builder start_image)
  assume "awaits_builder t"
  then have "bf = (if truthy builder then builder else None)"
    using BuildAnsible by simp
  then have "(case bf of None \<Rightarrow> None | Some b \<Rightarrow> Some (ensure_built_result env (builder_image b))) \<noteq> None
      \<or> \<not> truthy builder"
    by (auto split: option.splits)
  from build_ansible_no_build [OF this, of "builder_image b" env use_last playbook n start_image]
  show ?thesis
    using BuildAnsible by (simp add: count_list_0_iff)
qed

lemma task_calls_Cons:
  "task_calls env use_last (t # ts) = snd (run_task env use_last t) @ task_calls env use_last ts"
  by (simp add: task_calls_def)

lemma task_calls_Nil: "task_calls env use_last [] = []"
  by (simp add: task_calls_def)

lemma tasks_ops_count:
  "list_all awaits_builder tasks \<Longrightarrow>
   count_list (task_calls env use_last (filter (\<lambda>t. \<not> is_direct t) tasks))
              (EnsureBuilt (builder_image b))
     = count_list (concat (map task_builder tasks)) b"
proof (induction tasks)
  case Nil
  then show ?case by (simp add: task_calls_Nil)
next
  case (Cons t tasks)
  show ?case
  proof (cases "is_direct t")
    case True
    then have "task_builder t = []" by (cases t) auto
    with True Cons show ?thesis by simp
  next
    case False
    with Cons task_ops_count [of t env use_last b] show ?thesis
      by (simp add: task_calls_Cons)
  qed
qed

lemma all_tasks_ops_count:
  "list_all awaits_builder tasks \<Longrightarrow>
   \<forall>m. Build m \<in> set tasks \<longrightarrow> m \<noteq> builder_image b \<Longrightarrow>
   count_list (task_calls env use_last tasks) (EnsureBuilt (builder_image b))
     = count_list (concat (map task_builder tasks)) b"
proof (induction tasks)
  case Nil
  then show ?case by (simp add: task_calls_Nil)
next
  case (Cons t tasks)
  then have ih: "count_list (task_calls env use_last tasks) (EnsureBuilt (builder_image b))
     = count_list (concat (map task_builder tasks)) b"
    by simp
  show ?case
  proof (cases "is_direct t")
    case True
    then obtain m where t: "t = Build m" by (cases t) auto
    with Cons.prems have "m \<noteq> builder_image b" by simp
    with t ih show ?thesis
      by (simp add: task_calls_Cons split: sum.splits)
  next
    case False
    with Cons.prems ih task_ops_count [of t env use_last b] show ?thesis
      by (simp add: task_calls_Cons)
  qed
qed

lemma submit_role_direct:
  "submit_role vct_root getmtime clock names ansibles start_images n p = Inr p' \<Longrightarrow>
   Build m \<in> set (submitted p') \<Longrightarrow> Build m \<in> set (submitted p) \<or> m \<in> set names"
  by (auto simp: submit_role_def
      split: if_splits option.splits sum.splits prod.splits bool.splits)

lemma submit_roles_direct:
  "Build m \<in> set (submitted (snd (submit_roles vct_root getmtime clock names ansibles
                                     start_images roles p))) \<Longrightarrow>
   Build m \<in> set (submitted p) \<or> m \<in> set names"
proof (induction roles arbitrary: p)
  case Nil
  then show ?case by simp
next
  case (Cons n roles)
  then show ?case
    by (auto split: sum.splits dest: submit_role_direct)
qed

lemma ensure_images_built_direct:
  "Build m \<in> set (submitted_tasks (ensure_images_built vct_root getmtime clock docker_images imgs
                                     d names ansibles existing use_last)) \<Longrightarrow>
   m \<in> set names"
  by (auto simp: ensure_images_built_def Let_def case_prod_beta
      split: sum.splits if_splits dest: submit_roles_direct)

lemma count_list_distinct: "distinct xs \<Longrightarrow> count_list xs x \<le> 1"
  by (induction xs) (auto simp: count_list_0_iff)

lemma count_builder_tasks:
  "count_list tasks (BuildBuilder b) = count_list (concat (map task_builder tasks)) b"
proof (induction tasks)
  case Nil
  then show ?case by simp
next
  case (Cons t tasks)
  then show ?case by (cases t) auto
qed

lemma sort_roles: "sort [''ldap'', ''hgmaster'', ''hgweb''] = [''hgmaster'', ''hgweb'', ''ldap'']"
  by code_simp

lemma sort_builder_roles:
  "sort [''ansible-centos7'', ''hgmaster''] = [''ansible-centos7'', ''hgmaster'']"
  by code_simp

lemma hgmo_tasks:
  "ensure_images_built ''/vct'' no_markers epoch_clock [] [] empty_docker [''ldap'']
     hgmo_ansibles [] False
   = \<lparr>raised = None, known_images = [],
      submitted_tasks =
        [BuildBuilder ''centos7'',
         BuildAnsible (Some ''centos7'') ''docker-hgmaster'' ''hgmaster'' (Some ''centos7'') None,
         BuildAnsible (Some ''centos7'') ''docker-hgweb'' ''hgweb'' (Some ''centos7'') None,
         Build ''ldap''],
      docker_after = empty_docker\<rparr>"
  by (simp add: ensure_images_built_def known_existing_def missing_roles_def hgmo_ansibles_def
      get_sorted_images_def sort_roles submit_role_def)

lemma builder_requested_tasks:
  "submitted_tasks
     (ensure_images_built ''/vct'' no_markers epoch_clock [] [] empty_docker
        [''ansible-centos7''] hgmaster_ansibles [] False)
   = [Build ''ansible-centos7'',
      BuildBuilder ''centos7'',
      BuildAnsible (Some ''centos7'') ''docker-hgmaster'' ''hgmaster'' (Some ''centos7'') None]"
  by (simp add: ensure_images_built_def known_existing_def missing_roles_def
      hgmaster_ansibles_def get_sorted_images_def sort_builder_roles submit_role_def)

text \<open>
  C5, as amended. In every call of \<open>ensure_images_built\<close>, with or without an
  exception, and for every builder \<open>b\<close>: at most one of the submitted tasks is the
  build of \<open>b\<close>; the tasks submitted for the provisioned roles (the builds of builders
  and the provisioning runs), whatever the callees answer, call \<^verbatim>\<open>ensure_built\<close> on
  the image of \<open>b\<close> at most once altogether; and when the image name of \<open>b\<close> is not
  itself among the names requested directly, all the submitted tasks together call
  \<^verbatim>\<open>ensure_built\<close> on it at most once. The statement does not depend on the number
  of workers: it counts the calls of the tasks, in whatever order they run.
\<close>

theorem builder_built_once:
  "count_list
     (submitted_tasks (ensure_images_built vct_root getmtime clock docker_images imgs d names
                         ansibles existing use_last))
     (BuildBuilder b) \<le> 1 \<and>
   count_list
     (task_calls env use_last
        (filter (\<lambda>t. \<not> is_direct t)
           (submitted_tasks (ensure_images_built vct_root getmtime clock docker_images imgs d
                               names ansibles existing use_last))))
     (EnsureBuilt (builder_image b)) \<le> 1 \<and>
   (builder_image b \<notin> set names \<longrightarrow>
      count_list
        (task_calls env use_last
           (submitted_tasks (ensure_images_built vct_root getmtime clock docker_images imgs d
                               names ansibles existing use_last)))
        (EnsureBuilt (builder_image b)) \<le> 1)"
proof -
  let ?tasks = "submitted_tasks (ensure_images_built vct_root getmtime clock docker_images imgs d
                  names ansibles existing use_last)"
  have ok: "distinct (concat (map task_builder ?tasks)) \<and> list_all awaits_builder ?tasks"
    by (rule ensure_images_built_ok)
  have once: "count_list (concat (map task_builder ?tasks)) b \<le> 1"
    by (rule count_list_distinct) (rule conjunct1 [OF ok])
  have direct: "\<forall>m. Build m \<in> set ?tasks \<longrightarrow> m \<noteq> builder_image b"
    if "builder_image b \<notin> set names"
  proof (intro allI impI)
    fix m
    assume "Build m \<in> set ?tasks"
    then have "m \<in> set names"
      by (rule ensure_images_built_direct)
    with that show "m \<noteq> builder_image b"
      by auto
  qed
  have aw: "list_all awaits_builder ?tasks"
    using ok by (rule conjunct2)
  have submitted_once: "count_list ?tasks (BuildBuilder b) \<le> 1"
    using once by (simp only: count_builder_tasks)
  have provisioned_once:
    "count_list (task_calls env use_last (filter (\<lambda>t. \<not> is_direct t) ?tasks))
       (EnsureBuilt (builder_image b)) \<le> 1"
    using once by (simp only: tasks_ops_count [OF aw])
  have all_once:
    "count_list (task_calls env use_last ?tasks) (EnsureBuilt (builder_image b)) \<le> 1"
    if "builder_image b \<notin> set names"
    using once by (simp only: all_tasks_ops_count [OF aw direct [OF that]])
  show ?thesis
    using submitted_once provisioned_once all_once by blast
qed

theorem builder_built_once_witness:
  "builder_image ''centos7'' \<notin> set [''ldap''] \<and>
   count_list
     (task_calls example_env False
        (submitted_tasks
           (ensure_images_built ''/vct'' no_markers epoch_clock [] [] empty_docker [''ldap'']
              hgmo_ansibles [] False)))
     (EnsureBuilt (builder_image ''centos7'')) \<le> 1 \<and>
   submitted_tasks
     (ensure_images_built ''/vct'' no_markers epoch_clock [] [] empty_docker [''ldap'']
        hgmo_ansibles [] False)
   = [BuildBuilder ''centos7'',
      BuildAnsible (Some ''centos7'') ''docker-hgmaster'' ''hgmaster'' (Some ''centos7'') None,
      BuildAnsible (Some ''centos7'') ''docker-hgweb'' ''hgweb'' (Some ''centos7'') None,
      Build ''ldap'']"
proof -
  have n: "builder_image ''centos7'' \<notin> set [''ldap'']"
    by (simp add: builder_image_def)
  have "count_list
     (task_calls example_env False
        (submitted_tasks
           (ensure_images_built ''/vct'' no_markers epoch_clock [] [] empty_docker [''ldap'']
              hgmo_ansibles [] False)))
     (EnsureBuilt (builder_image ''centos7'')) \<le> 1"
    by (rule builder_built_once
          [of "''/vct''" no_markers epoch_clock "[]" "[]" empty_docker "[''ldap'']" hgmo_ansibles
              "[]" False "''centos7''" example_env,
           THEN conjunct2, THEN conjunct2, THEN mp])
       (rule n)
  then show ?thesis
    using n by (simp add: hgmo_tasks)
qed

text \<open>
  C5 as stated fails. The caller asks for the image \<open>ansible-centos7\<close> by name and
  for the provisioned role \<open>hgmaster\<close>, which is missing and depends on the builder
  \<open>centos7\<close>. The direct build and the build of the builder are both submitted, and
  the tasks call \<^verbatim>\<open>ensure_built\<close> on the builder's image twice.
\<close>

theorem builder_built_twice_counterexample:
  "count_list
     (task_calls example_env False
        (submitted_tasks
           (ensure_images_built ''/vct'' no_markers epoch_clock [] [] empty_docker
              [''ansible-centos7''] hgmaster_ansibles [] False)))
     (EnsureBuilt (builder_image ''centos7'')) = 2"
  by (simp add: builder_requested_tasks task_calls_def build_ansible_def run_ansible_def
      example_env_def builder_image_def history_rebase_def Let_def)

section \<open>import_base_image\<close>

text \<open>
  What holds on every path of the method. The import call is made only with content
  whose digest is the expected one, under the repository and the cache tag of the
  request.
\<close>

lemma import_only_verified:
  "ImportImage data r t \<in> set (snd (import_base_image env imgs repository tagprefix url digest))
   \<Longrightarrow> \<exists>chunks. http_get env url = Some chunks \<and>
                sha256_hexdigest env (concat chunks) = digest \<and>
                r = repository \<and> t = cache_tag env tagprefix url digest"
  by (auto simp: import_base_image_def Let_def
      split: sum.splits option.splits if_splits)

text \<open>After a scan without a hit, content of another digest is refused and not imported.\<close>

lemma import_digest_mismatch:
  "scan_images repository (cache_tag env tagprefix url digest) (get_sorted_images imgs) = Inr None
   \<Longrightarrow> http_get env url = Some chunks
   \<Longrightarrow> sha256_hexdigest env (concat chunks) \<noteq> digest
   \<Longrightarrow> import_base_image env imgs repository tagprefix url digest
         = (Inl (Exception ''downloaded Docker image does not match digest''), [Download url])"
  by (simp add: import_base_image_def)

text \<open>A hit of the scan is answered without a download.\<close>

lemma import_cache_hit:
  "scan_images repository (cache_tag env tagprefix url digest) (get_sorted_images imgs)
     = Inr (Some iid)
   \<Longrightarrow> import_base_image env imgs repository tagprefix url digest = (Inr iid, [])"
  by (simp add: import_base_image_def)

lemma sorted_registry_first:
  "get_sorted_images [cached_image tag, registry_image] = [registry_image, cached_image tag]"
  by (simp add: get_sorted_images_def registry_image_def cached_image_def)

text \<open>
  C1: the code at an input on which it departs from the claim. The daemon lists an
  image that carries the cache tag of the request and a newer image whose tag names a
  registry with its port. The scan reaches the newer image first,
  \<^verbatim>\<open>repotag.split(':')\<close> gives three parts, and the unpacking of line 351 raises:
  the cached image is not returned, and nothing is downloaded. This holds for every
  hash function, decompressor and daemon answer.
\<close>

theorem import_base_image_registry_tag:
  "import_base_image env
     [cached_image (cache_tag env ''base'' ''https://example.org/centos7.tar.xz'' ''0f3c''),
      registry_image]
     ''centos'' ''base'' ''https://example.org/centos7.tar.xz'' ''0f3c''
   = (Inl UnpackError, [])"
  by (simp add: import_base_image_def sorted_registry_first)
     (simp add: registry_image_def repotags_of_def)

section \<open>ensure_built: the inclusion directives\<close>

text \<open>Every file added for a directive is named under \<^verbatim>\<open>extra/vct/\<close>.\<close>

lemma add_subtree_extra:
  "(full, rel) \<in> set (add_subtree vct_root p added fs) \<Longrightarrow> \<exists>f. rel = archive_name f"
  by (induction fs) (auto split: if_splits)

lemma add_vct_paths_extra:
  "add_vct_paths vct_root exists vct_files added ps = Inr adds \<Longrightarrow>
   (full, rel) \<in> set adds \<Longrightarrow> \<exists>f. rel = archive_name f"
proof (induction ps arbitrary: adds)
  case Nil
  then show ?case by simp
next
  case (Cons p ps)
  then show ?case
    by (auto split: if_splits sum.splits dest: add_subtree_extra)
qed

lemma archive_name_extra: "startswith (archive_name f) ''extra/''"
  by (simp add: archive_name_def startswith_def)

text \<open>
  C8: the code at an input on which it departs from the claim. The build script
  includes the subtree \<^verbatim>\<open>testing/\<close> and the file \<^verbatim>\<open>testing/docker.py\<close>, which is
  under version control. Nothing is ever put into the set \<^verbatim>\<open>added\<close>, so the test
  \<^verbatim>\<open>full in added\<close> never holds, and the file is added to the archive twice.
\<close>

theorem vct_additions_twice:
  "vct_additions ''/vct'' all_exist [''testing/docker.py'']
     (include_paths [''FROM centos:7'', ''# %include testing/'', ''# %include testing/docker.py''])
   = Inr [(''/vct/testing/docker.py'', ''extra/vct/testing/docker.py''),
          (''/vct/testing/docker.py'', ''extra/vct/testing/docker.py'')]"
  by (simp add: vct_additions_def include_paths_def rstrip_def py_whitespace_def startswith_def
      endswith_def all_exist_def path_join_def archive_name_def)

end
